theory Spec2Isabelle
  imports Main "HOL-Library.Word"
begin

unbundle bit_operations_syntax

section \<open>Machine integers and the mapped bytes\<close>

text \<open>
  Go's \<open>int64\<close> is modelled as \<open>int\<close> with the two's complement wrap-around written
  out: \<open>i64\<close> is applied wherever the source computes a value that can leave the range.
\<close>

definition i64 :: "int \<Rightarrow> int" where
  "i64 x = (x + 2 ^ 63) mod 2 ^ 64 - 2 ^ 63"

definition is_i64 :: "int \<Rightarrow> bool" where
  "is_i64 x = (- (2 ^ 63) \<le> x \<and> x < 2 ^ 63)"

text \<open>
  A region's \<open>d []byte\<close> is the memory mapping of one segment of the file. It is a store
  from byte offsets to bytes; every field of the region lives in it and is read and written
  through the unsafe pointer casts \<open>*(*int64)(unsafe.Pointer(&x[0]))\<close>, which are 8-byte
  accesses in the byte order of the machine (little-endian here).
\<close>

type_synonym byte = "8 word"
type_synonym mem = "int \<Rightarrow> byte"

definition put64 :: "mem \<Rightarrow> int \<Rightarrow> int \<Rightarrow> mem" where
  "put64 m p v = m(p := word_of_int v,
                   p + 1 := word_of_int (v div 2 ^ 8),
                   p + 2 := word_of_int (v div 2 ^ 16),
                   p + 3 := word_of_int (v div 2 ^ 24),
                   p + 4 := word_of_int (v div 2 ^ 32),
                   p + 5 := word_of_int (v div 2 ^ 40),
                   p + 6 := word_of_int (v div 2 ^ 48),
                   p + 7 := word_of_int (v div 2 ^ 56))"

definition get64 :: "mem \<Rightarrow> int \<Rightarrow> int" where
  "get64 m p = i64 (uint (m p) + 2 ^ 8 * uint (m (p + 1)) + 2 ^ 16 * uint (m (p + 2))
                  + 2 ^ 24 * uint (m (p + 3)) + 2 ^ 32 * uint (m (p + 4))
                  + 2 ^ 40 * uint (m (p + 5)) + 2 ^ 48 * uint (m (p + 6))
                  + 2 ^ 56 * uint (m (p + 7)))"

section \<open>Constants, errors and panics\<close>

definition regionHeaderSize :: int where "regionHeaderSize = 32"
definition regionFreePointerOffset :: int where "regionFreePointerOffset = 8"
definition regionSizeOffset :: int where "regionSizeOffset = 16"
definition regionId :: int where "regionId = 24"
definition blockListHeaderSize :: int where "blockListHeaderSize = 8"
definition blockListEntrySize :: int where "blockListEntrySize = 16"

text \<open>The bytes of \<open>"HEAPREGN"\<close>.\<close>

definition signature :: "byte list" where
  "signature = [72, 69, 65, 80, 82, 69, 71, 78]"

datatype error = OutOfMemory | BlockTooLarge | InvalidSignature | EINVAL

text \<open>
  The run-time panics of the Go code: the explicit \<open>panic\<close> of \<open>NewBlockId\<close>, a slice
  expression out of bounds, an index out of range, a nil pointer dereference and
  \<open>make\<close> with a capacity out of range.
\<close>

datatype panic = BlockIdPanic | SliceBounds | IndexRange | NilDeref | MakeSliceCap

text \<open>
  What a call does: it panics, it returns a non-nil \<open>error\<close>, or it returns a value
  (with a nil error where the Go function has an error result).
\<close>

datatype 'a outcome = Panics panic | Fails error | Returns 'a

section \<open>BlockId\<close>

text \<open>A \<open>BlockId\<close> is an \<open>int64\<close>.\<close>

definition NewBlockId :: "int \<Rightarrow> int \<Rightarrow> int outcome" where
  "NewBlockId r_id bid =
     (if bid > 0xfffff then Panics BlockIdPanic
      else Returns (i64 (push_bit 16 r_id) OR (bid AND 0xffff)))"

definition RegionId :: "int \<Rightarrow> int" where
  "RegionId bid = drop_bit 16 bid"

definition BlockId :: "int \<Rightarrow> int" where
  "BlockId bid = bid AND 0xffff"

section \<open>Regions and blocks\<close>

text \<open>
  \<open>rid\<close> is the field \<open>id\<close> of the source, \<open>dlen\<close> is \<open>len(r.d)\<close> (also its capacity).
  The fields \<open>freePtr\<close> and \<open>blockListNextIdPtr\<close> of the source are the sub-slices
  \<open>d[8:16]\<close> and \<open>d[len(d)-8:len(d)]\<close>: they alias \<open>d\<close> and are the offsets \<open>8\<close> and
  \<open>dlen - 8\<close> here. The file handle is left out.
\<close>

record region =
  rid :: int
  d :: mem
  dlen :: int

text \<open>
  \<open>Bytes\<close> is the view \<open>r.d[offset : offset+size]\<close>: the pair of its bounds in \<open>d\<close>.
  The owning region of the source's Block is the one the block was read from.
\<close>

record Block =
  Id :: int
  Bytes :: "int \<times> int"
  Size :: int
  Offset :: int

definition Size_r :: "region \<Rightarrow> int" where
  "Size_r r = dlen r"

definition getFreePointer :: "region \<Rightarrow> int" where
  "getFreePointer r = get64 (d r) regionFreePointerOffset"

definition setFreePointer :: "region \<Rightarrow> int \<Rightarrow> region" where
  "setFreePointer r offset = r\<lparr>d := put64 (d r) regionFreePointerOffset offset\<rparr>"

definition getNextFreeBlockId :: "region \<Rightarrow> int outcome" where
  "getNextFreeBlockId r = NewBlockId (rid r) (get64 (d r) (dlen r - 8))"

definition setNextFreeBlockId :: "region \<Rightarrow> int \<Rightarrow> region" where
  "setNextFreeBlockId r bid = r\<lparr>d := put64 (d r) (dlen r - 8) (BlockId bid)\<rparr>"

definition incrementFreeBlockId :: "region \<Rightarrow> int outcome \<times> region" where
  "incrementFreeBlockId r =
     (case getNextFreeBlockId r of
        Returns bid \<Rightarrow> (Returns bid, r\<lparr>d := put64 (d r) (dlen r - 8) (BlockId bid + 1)\<rparr>)
      | Panics p \<Rightarrow> (Panics p, r)
      | Fails e \<Rightarrow> (Fails e, r))"

definition initBlockList :: "region \<Rightarrow> region" where
  "initBlockList r = r\<lparr>d := put64 (d r) (dlen r - 8) 0\<rparr>"

text \<open>
  \<open>getBlockListEntryBytes\<close> returns the slice \<open>r.d[j:i]\<close>; the model returns its start
  \<open>j\<close>, or the panic of a slice expression whose bounds are not \<open>0 \<le> j \<le> i \<le> cap\<close>.
  The block index is between 0 and 65535 and \<open>dlen\<close> is not negative, so \<open>i\<close> and \<open>j\<close>
  cannot overflow.
\<close>

definition getBlockListEntryBytes :: "region \<Rightarrow> int \<Rightarrow> int outcome" where
  "getBlockListEntryBytes r bid =
     (let i = dlen r - blockListHeaderSize - blockListEntrySize * BlockId bid;
          j = i - blockListEntrySize
      in if 0 \<le> j \<and> j \<le> i \<and> i \<le> dlen r then Returns j else Panics SliceBounds)"

definition setBlockListEntry :: "region \<Rightarrow> int \<Rightarrow> int \<Rightarrow> int \<Rightarrow> region outcome" where
  "setBlockListEntry r bid offset sz =
     (case getBlockListEntryBytes r bid of
        Returns j \<Rightarrow> Returns (r\<lparr>d := put64 (put64 (d r) j offset) (j + 8) sz\<rparr>)
      | Panics p \<Rightarrow> Panics p
      | Fails e \<Rightarrow> Fails e)"

definition rawGetBlock :: "region \<Rightarrow> int \<Rightarrow> Block option outcome" where
  "rawGetBlock r bid =
     (case getBlockListEntryBytes r bid of
        Returns j \<Rightarrow>
          (let offset = get64 (d r) j; sz = get64 (d r) (j + 8)
           in if offset = 0 \<or> sz = 0 then Returns None
              else if 0 \<le> offset \<and> offset \<le> i64 (offset + sz) \<and> i64 (offset + sz) \<le> dlen r
              then Returns (Some \<lparr>Id = bid, Bytes = (offset, i64 (offset + sz)),
                                   Size = sz, Offset = offset\<rparr>)
              else Panics SliceBounds)
      | Panics p \<Rightarrow> Panics p
      | Fails e \<Rightarrow> Fails e)"

definition Available :: "region \<Rightarrow> int outcome" where
  "Available r =
     (case getNextFreeBlockId r of
        Returns nxt \<Rightarrow>
          Returns (i64 (Size_r r - getFreePointer r - blockListHeaderSize
                        - BlockId nxt * blockListEntrySize))
      | Panics p \<Rightarrow> Panics p
      | Fails e \<Rightarrow> Fails e)"

text \<open>
  \<open>Allocate\<close> returns its result and the region as the call leaves it. The mapping is
  shared, so what was written before a panic stays written.
\<close>

definition Allocate :: "region \<Rightarrow> int \<Rightarrow> Block option outcome \<times> region" where
  "Allocate r sz =
     (let offset = getFreePointer r in
      case Available r of
        Panics p \<Rightarrow> (Panics p, r)
      | Fails e \<Rightarrow> (Fails e, r)
      | Returns avail \<Rightarrow>
          if sz > avail then (Fails OutOfMemory, r)
          else if sz > Size_r r then (Fails BlockTooLarge, r)
          else
            (case getNextFreeBlockId r of
               Panics p \<Rightarrow> (Panics p, r)
             | Fails e \<Rightarrow> (Fails e, r)
             | Returns bid \<Rightarrow>
                 (case setBlockListEntry r bid offset sz of
                    Panics p \<Rightarrow> (Panics p, r)
                  | Fails e \<Rightarrow> (Fails e, r)
                  | Returns r1 \<Rightarrow>
                      (case rawGetBlock r1 bid of
                         Panics p \<Rightarrow> (Panics p, r1)
                       | Fails e \<Rightarrow> (Fails e, r1)
                       | Returns b \<Rightarrow>
                           (let r2 = setFreePointer r1 (i64 (offset + sz)) in
                            case incrementFreeBlockId r2 of
                              (Panics p, r3) \<Rightarrow> (Panics p, r3)
                            | (Fails e, r3) \<Rightarrow> (Fails e, r3)
                            | (Returns _, r3) \<Rightarrow> (Returns b, r3))))))"

text \<open>
  The states of the shared mapping after each write of a successful \<open>Allocate\<close>, in the
  order of the writes: the entry's offset, the entry's sz (the two writes of
  \<open>setBlockListEntry\<close>), the free pointer, the id counter.
\<close>

definition Allocate_writes :: "region \<Rightarrow> int \<Rightarrow> region list" where
  "Allocate_writes r sz =
     (let offset = getFreePointer r in
      case getNextFreeBlockId r of
        Returns bid \<Rightarrow>
          (case getBlockListEntryBytes r bid of
             Returns j \<Rightarrow>
               (let r0 = r\<lparr>d := put64 (d r) j offset\<rparr>;
                    r1 = r0\<lparr>d := put64 (d r0) (j + 8) sz\<rparr>;
                    r2 = setFreePointer r1 (i64 (offset + sz));
                    r3 = snd (incrementFreeBlockId r2)
                in [r0, r1, r2, r3])
           | Panics p \<Rightarrow> []
           | Fails e \<Rightarrow> [])
      | Panics p \<Rightarrow> []
      | Fails e \<Rightarrow> [])"

definition Free :: "region \<Rightarrow> Block \<Rightarrow> bool outcome \<times> region" where
  "Free r b =
     (case getBlockListEntryBytes r (Id b) of
        Panics p \<Rightarrow> (Panics p, r)
      | Fails e \<Rightarrow> (Fails e, r)
      | Returns j \<Rightarrow>
          (let offset = get64 (d r) j; sz = get64 (d r) (j + 8)
           in if offset = 0 \<and> sz = 0 then (Returns False, r)
              else
                (case setBlockListEntry r (Id b) 0 0 of
                   Panics p \<Rightarrow> (Panics p, r)
                 | Fails e \<Rightarrow> (Fails e, r)
                 | Returns r1 \<Rightarrow>
                     (case getNextFreeBlockId r1 of
                        Panics p \<Rightarrow> (Panics p, r1)
                      | Fails e \<Rightarrow> (Fails e, r1)
                      | Returns nxt \<Rightarrow>
                          if Id b = i64 (nxt - 1)
                          then (Returns True, setNextFreeBlockId (setFreePointer r1 offset) (Id b))
                          else (Returns True, r1)))))"

definition GetBlock :: "region \<Rightarrow> int \<Rightarrow> Block option outcome" where
  "GetBlock r bid =
     (case getNextFreeBlockId r of
        Panics p \<Rightarrow> Panics p
      | Fails e \<Rightarrow> Fails e
      | Returns mx \<Rightarrow>
          (case NewBlockId (rid r) 0 of
             Panics p \<Rightarrow> Panics p
           | Fails e \<Rightarrow> Fails e
           | Returns lo \<Rightarrow>
               if bid < lo \<or> bid \<ge> mx then Returns None else rawGetBlock r bid))"

text \<open>
  The loop of \<open>Blocks\<close>: \<open>for i := NewBlockId(r.id, 0); i < max; i++\<close>. The counter
  stays below \<open>max\<close>, an \<open>int64\<close>, so \<open>i++\<close> cannot overflow.
\<close>

function Blocks_loop :: "region \<Rightarrow> int \<Rightarrow> int \<Rightarrow> Block list \<Rightarrow> Block list outcome" where
  "Blocks_loop r i mx entries =
     (if i < mx then
        (case GetBlock r i of
           Panics p \<Rightarrow> Panics p
         | Fails e \<Rightarrow> Fails e
         | Returns None \<Rightarrow> Blocks_loop r (i + 1) mx entries
         | Returns (Some b) \<Rightarrow> Blocks_loop r (i + 1) mx (entries @ [b]))
      else Returns entries)"
  by pat_completeness auto
termination
  by (relation "measure (\<lambda>(r, i, mx, entries). nat (mx - i))") auto

declare Blocks_loop.simps [simp del]

text \<open>
  \<open>make([]*Block, 0, max)\<close> panics (\<open>makeslice: cap out of range\<close>) when \<open>max\<close> is
  negative or when \<open>max\<close> pointers of 8 bytes exceed the run time's \<open>maxAlloc\<close>, which
  is \<open>2 ^ 48\<close> bytes on the 64-bit targets. Below that bound the allocation is taken to
  succeed.
\<close>

definition maxAlloc :: int where
  "maxAlloc = 2 ^ 48"

definition Blocks :: "region \<Rightarrow> Block list outcome" where
  "Blocks r =
     (case getNextFreeBlockId r of
        Panics p \<Rightarrow> Panics p
      | Fails e \<Rightarrow> Fails e
      | Returns mx \<Rightarrow>
          if mx < 0 \<or> 8 * mx > maxAlloc then Panics MakeSliceCap
          else
            (case NewBlockId (rid r) 0 of
               Panics p \<Rightarrow> Panics p
             | Fails e \<Rightarrow> Fails e
             | Returns lo \<Rightarrow> Blocks_loop r lo mx []))"

text \<open>
  \<open>openRegion\<close> reads the header of the segment and maps it. Its argument is the content
  of the file from the segment's offset on. \<open>syscall.Mmap\<close> refuses a length that is not
  positive with \<open>EINVAL\<close>; the slice \<open>d[8:16]\<close> panics on a mapping shorter than 16 bytes.
  Failures of seek, read and map other than these are not modelled.
\<close>

definition openRegion :: "mem \<Rightarrow> region outcome" where
  "openRegion m =
     (if map m [0, 1, 2, 3, 4, 5, 6, 7] \<noteq> signature then Fails InvalidSignature
      else
        (let sz = get64 m regionSizeOffset; r_id = get64 m regionId
         in if sz \<le> 0 then Fails EINVAL
            else if sz < 16 then Panics SliceBounds
            else Returns \<lparr>rid = r_id, d = m, dlen = sz\<rparr>))"

text \<open>
  \<open>appendRegion\<close> extends the file by \<open>regionSizeB\<close> bytes, which reads as zeros, and
  writes the 32 bytes of the header at the old end of the file; \<open>header\<close> is the content
  of the file from there on.
\<close>

definition header :: "int \<Rightarrow> int \<Rightarrow> mem" where
  "header r_id regionSizeB =
     put64 (put64 (put64
       ((\<lambda>_. 0)(0 := 72, 1 := 69, 2 := 65, 3 := 80, 4 := 82, 5 := 69, 6 := 71, 7 := 78))
       regionFreePointerOffset regionHeaderSize)
       regionSizeOffset regionSizeB)
       regionId r_id"

definition appendRegion :: "int \<Rightarrow> int \<Rightarrow> region outcome" where
  "appendRegion r_id regionSizeB =
     (case openRegion (header r_id regionSizeB) of
        Returns r \<Rightarrow> Returns (initBlockList r)
      | Panics p \<Rightarrow> Panics p
      | Fails e \<Rightarrow> Fails e)"

text \<open>
  A sequence of calls of \<open>Allocate\<close> on one region, each on the state the call before it
  left: the results in the order of the calls, and the last state.
\<close>

fun Allocate_seq :: "region \<Rightarrow> int list \<Rightarrow> Block option outcome list \<times> region" where
  "Allocate_seq r [] = ([], r)"
| "Allocate_seq r (sz # szs) =
     (case Allocate r sz of
        (res, r') \<Rightarrow> (case Allocate_seq r' szs of (ress, r'') \<Rightarrow> (res # ress, r'')))"

section \<open>The heap\<close>

text \<open>The heap is the sequence of its regions (the file handle is left out).\<close>

record Heap =
  regions :: "region list"

definition Heap_GetBlock :: "Heap \<Rightarrow> int \<Rightarrow> Block option outcome" where
  "Heap_GetBlock h bid =
     (let i = RegionId bid
      in if 0 \<le> i \<and> i < int (length (regions h))
         then GetBlock (regions h ! nat i) bid
         else Panics IndexRange)"

definition Heap_Free :: "Heap \<Rightarrow> Block \<Rightarrow> bool outcome \<times> Heap" where
  "Heap_Free h b =
     (let i = RegionId (Id b)
      in if 0 \<le> i \<and> i < int (length (regions h))
         then (case Free (regions h ! nat i) b of
                 (res, r') \<Rightarrow> (res, h\<lparr>regions := (regions h)[nat i := r']\<rparr>))
         else (Panics IndexRange, h))"

text \<open>
  The first loop of \<open>Heap.Allocate\<close>: \<open>None\<close> when every region reported \<open>OutOfMemory\<close>
  and the loop ran to its end, otherwise what the call returns.
\<close>

fun try_regions :: "region list \<Rightarrow> int \<Rightarrow> Block option outcome option \<times> region list" where
  "try_regions [] sz = (None, [])"
| "try_regions (r # rs) sz =
     (case Allocate r sz of
        (Returns b, r') \<Rightarrow> (Some (Returns b), r' # rs)
      | (Panics p, r') \<Rightarrow> (Some (Panics p), r' # rs)
      | (Fails e, r') \<Rightarrow>
          if e \<noteq> OutOfMemory then (Some (Fails e), r' # rs)
          else (case try_regions rs sz of (res, rs') \<Rightarrow> (res, r' # rs')))"

text \<open>
  The loop \<open>for regionSize < size { regionSize *= 2 }\<close>. It does not end when the
  doubling wraps around to a value that stays below \<open>sz\<close>, so it runs on fuel:
  \<open>None\<close> is the loop still running when the fuel is used up.
\<close>

fun double_until :: "nat \<Rightarrow> int \<Rightarrow> int \<Rightarrow> int option" where
  "double_until 0 regionSize sz = None"
| "double_until (Suc n) regionSize sz =
     (if regionSize < sz then double_until n (i64 (regionSize * 2)) sz
      else Some regionSize)"

text \<open>
  \<open>Heap.Allocate\<close> calls itself after appending a region, and nothing bounds the number
  of regions it appends, so it runs on fuel as well: \<open>None\<close> is the call that has not
  returned when the fuel is used up. Extending and mapping the file are taken to succeed.
\<close>

fun Heap_Allocate :: "nat \<Rightarrow> Heap \<Rightarrow> int \<Rightarrow> (Block option outcome \<times> Heap) option" where
  "Heap_Allocate 0 h sz = None"
| "Heap_Allocate (Suc n) h sz =
     (case try_regions (regions h) sz of
        (Some res, rs) \<Rightarrow> Some (res, h\<lparr>regions := rs\<rparr>)
      | (None, rs) \<Rightarrow>
          if rs = [] then Some (Panics NilDeref, h\<lparr>regions := rs\<rparr>)
          else
            (let r = last rs in
             case double_until (Suc n) (Size_r r) sz of
               None \<Rightarrow> None
             | Some regionSize \<Rightarrow>
                 (case appendRegion (i64 (rid r + 1)) regionSize of
                    Panics p \<Rightarrow> Some (Panics p, h\<lparr>regions := rs\<rparr>)
                  | Fails e \<Rightarrow> Some (Fails e, h\<lparr>regions := rs\<rparr>)
                  | Returns r' \<Rightarrow> Heap_Allocate n (h\<lparr>regions := rs @ [r']\<rparr>) sz)))"

text \<open>\<open>OpenForUpdate\<close> on a file it has just created (the file is empty).\<close>

definition OpenForUpdate :: "int \<Rightarrow> Heap outcome" where
  "OpenForUpdate regionSizeMb =
     (case appendRegion 0 (i64 (regionSizeMb * 1024 * 1024)) of
        Returns r \<Rightarrow> Returns \<lparr>regions = [r]\<rparr>
      | Panics p \<Rightarrow> Panics p
      | Fails e \<Rightarrow> Fails e)"

text \<open>
  The region that \<open>appendRegion r_id n\<close> returns when it returns one (lemma
  \<open>appendRegion_new\<close>): the header, zeros after it, and the id counter set to 0.
\<close>

definition new_region :: "int \<Rightarrow> int \<Rightarrow> region" where
  "new_region r_id n = initBlockList \<lparr>rid = r_id, d = header r_id n, dlen = n\<rparr>"

text \<open>The \<open>BlockId\<close> of block index 0 in the region of index \<open>r_id\<close>: \<open>r_id << 16\<close>.\<close>

definition regionBase :: "int \<Rightarrow> int" where
  "regionBase r_id = i64 (push_bit 16 r_id)"

text \<open>The stored id counter, as \<open>getNextFreeBlockId\<close> reads it before encoding it.\<close>

definition nextId :: "region \<Rightarrow> int" where
  "nextId r = get64 (d r) (dlen r - 8)"

text \<open>
  The offset in \<open>d\<close> of the block-list entry of a block index (the \<open>j\<close> of
  \<open>getBlockListEntryBytes\<close>), and the entry as \<open>Free\<close> and \<open>rawGetBlock\<close> read it.
\<close>

definition slot :: "region \<Rightarrow> int \<Rightarrow> int" where
  "slot r k = dlen r - blockListHeaderSize - blockListEntrySize * k - blockListEntrySize"

definition entry :: "region \<Rightarrow> int \<Rightarrow> int \<times> int" where
  "entry r k = (get64 (d r) (slot r k), get64 (d r) (slot r k + 8))"

text \<open>
  The states of a region that the theorems below are about: the free pointer is past the
  header, the id counter is a block index that still fits the 16 bits of a \<open>BlockId\<close>, and
  the data of the blocks ends at or before the entry of the last block (what \<open>Allocate\<close>
  checks with \<open>Available\<close> before it adds the entry). A new region of at least 40 bytes is
  in such a state.
\<close>

definition region_ok :: "region \<Rightarrow> bool" where
  "region_ok r =
     (is_i64 (dlen r) \<and> 32 \<le> getFreePointer r \<and> 0 \<le> nextId r \<and> nextId r \<le> 65535
      \<and> getFreePointer r + 16 * nextId r \<le> dlen r + 8)"

text \<open>
  A region of 2 MiB after 65536 allocations of one byte each, none of which fails (lemma
  \<open>Allocate_seq_65536\<close>): the stored id counter is 65536.
\<close>

definition region_after_65536 :: region where
  "region_after_65536 = snd (Allocate_seq (new_region 0 2097152) (replicate 65536 1))"

section \<open>Reading and writing the mapped bytes\<close>

lemma i64_id: "- (2 ^ 63) \<le> x \<Longrightarrow> x < 2 ^ 63 \<Longrightarrow> i64 x = x"
  by (simp add: i64_def)

lemma i64_mod: "i64 (x mod 2 ^ 64) = i64 x"
  unfolding i64_def by (simp add: mod_add_left_eq)

lemma is_i64_i64 [simp]: "is_i64 (i64 x)"
  by (simp add: is_i64_def i64_def)

lemma i64_is_i64: "is_i64 x \<Longrightarrow> i64 x = x"
  by (simp add: is_i64_def i64_id)

lemma byte_of: "uint (word_of_int v :: byte) = v mod 256"
  by (simp add: uint_word_of_int)

lemma mod_split: "0 < b \<Longrightarrow> 0 \<le> c \<Longrightarrow> (x::int) mod (b * c) = x mod b + b * (x div b mod c)"
  using zmod_zmult2_eq[of c x b] by simp

lemma div_split: "0 \<le> c \<Longrightarrow> (x::int) div b div c = x div (b * c)"
  using zdiv_zmult2_eq[of c x b] by simp

lemma split8: "(v::int) mod 2 ^ 64 = v mod 256 + 2 ^ 8 * (v div 2 ^ 8 mod 256) + 2 ^ 16 * (v div 2 ^ 16 mod 256)
   + 2 ^ 24 * (v div 2 ^ 24 mod 256) + 2 ^ 32 * (v div 2 ^ 32 mod 256) + 2 ^ 40 * (v div 2 ^ 40 mod 256)
   + 2 ^ 48 * (v div 2 ^ 48 mod 256) + 2 ^ 56 * (v div 2 ^ 56 mod 256)"
proof -
  have a: "\<And>x::int. x mod 65536 = x mod 256 + 256 * (x div 256 mod 256)"
    using mod_split[of 256 256] by simp
  have b: "\<And>x::int. x mod 4294967296 = x mod 65536 + 65536 * (x div 65536 mod 65536)"
    using mod_split[of 65536 65536] by simp
  have c: "\<And>x::int. x mod 18446744073709551616 = x mod 4294967296 + 4294967296 * (x div 4294967296 mod 4294967296)"
    using mod_split[of 4294967296 4294967296] by simp
  have d1: "v div 65536 div 256 = v div 16777216"
    using div_split[of 256 v 65536] by simp
  have d2: "v div 4294967296 div 256 = v div 1099511627776"
    using div_split[of 256 v 4294967296] by simp
  have d3: "v div 4294967296 div 65536 = v div 281474976710656"
    using div_split[of 65536 v 4294967296] by simp
  have d4: "v div 281474976710656 div 256 = v div 72057594037927936"
    using div_split[of 256 v 281474976710656] by simp
  have "v mod 18446744073709551616 =
     v mod 256 + 256 * (v div 256 mod 256) + 65536 * (v div 65536 mod 256) +
     16777216 * (v div 16777216 mod 256) +
     4294967296 * (v div 4294967296 mod 256) +
     1099511627776 * (v div 1099511627776 mod 256) +
     281474976710656 * (v div 281474976710656 mod 256) +
     72057594037927936 * (v div 72057594037927936 mod 256)"
    using c[of v] b[of v] b[of "v div 4294967296"] a[of v] a[of "v div 65536"]
        a[of "v div 4294967296"] a[of "v div 281474976710656"] 
    unfolding d1 d2 d3 d4 by linarith
  then show ?thesis by simp
qed

lemma get64_put64_same: "get64 (put64 m p v) p = i64 v"
  unfolding get64_def put64_def
  apply (simp add: byte_of)
  apply (subst i64_mod[symmetric, of v])
  apply (subst split8)
  apply simp
  done

lemma put64_outside: "a < p \<or> p + 8 \<le> a \<Longrightarrow> put64 m p v a = m a"
  unfolding put64_def by auto

lemma get64_put64_other: "q + 8 \<le> p \<or> p + 8 \<le> q \<Longrightarrow> get64 (put64 m p v) q = get64 m q"
  unfolding get64_def by (auto simp: put64_outside)

lemma get64_upd_other: "a < q \<or> q + 8 \<le> a \<Longrightarrow> get64 (m(a := b)) q = get64 m q"
  unfolding get64_def by auto

lemma get64_zero: "get64 (\<lambda>_. 0) q = 0"
  unfolding get64_def by (simp add: i64_def)

lemma is_i64_get64: "is_i64 (get64 m p)"
  by (simp add: get64_def)

section \<open>The BlockId codec\<close>

lemma mask16: "(65535::int) = mask 16"
  by (simp add: mask_eq_exp_minus_1)

lemma BlockId_mod: "BlockId b = b mod 65536"
  unfolding BlockId_def mask16 take_bit_eq_mask[symmetric] by (simp add: take_bit_eq_mod)

lemma BlockId_range: "0 \<le> BlockId b \<and> BlockId b \<le> 65535"
  by (simp add: BlockId_mod) 

lemma i64_shift_dvd: "65536 dvd i64 (push_bit 16 r)"
proof -
  have "i64 (push_bit 16 r) = (r * 65536 + 2 ^ 63) mod 2 ^ 64 - 2 ^ 63"
    by (simp add: i64_def push_bit_eq_mult)
  moreover have "(65536::int) dvd (r * 65536 + 2 ^ 63) mod 2 ^ 64"
    by (rule dvd_mod) simp_all
  ultimately show ?thesis by simp
qed

lemma NewBlockId_plus:
  assumes "b \<le> 0xfffff"
  shows "NewBlockId r b = Returns (i64 (push_bit 16 r) + b mod 65536)"
proof -
  obtain q where q: "i64 (push_bit 16 r) = 65536 * q"
    using i64_shift_dvd[of r] by (auto simp: dvd_def)
  have "(65536 * q) OR (b AND 65535) = push_bit 16 q OR take_bit 16 b"
    unfolding mask16 take_bit_eq_mask[symmetric] by (simp add: push_bit_eq_mult mult.commute)
  also have "\<dots> = concat_bit 16 b q"
    by (simp add: concat_bit_def or.commute) 
  also have "\<dots> = take_bit 16 b + push_bit 16 q"
    by (simp add: concat_bit_eq)
  also have "\<dots> = 65536 * q + b mod 65536"
    by (simp add: push_bit_eq_mult take_bit_eq_mod)
  finally show ?thesis
    using assms by (simp add: NewBlockId_def q)
qed

lemmas consts_defs = regionHeaderSize_def regionFreePointerOffset_def regionSizeOffset_def
  regionId_def blockListHeaderSize_def blockListEntrySize_def

lemma NewBlockId_not_Fails [simp]: "NewBlockId r b \<noteq> Fails e"
  by (simp add: NewBlockId_def)

lemma NewBlockId_0: "NewBlockId r 0 = Returns (i64 (push_bit 16 r))"
  using NewBlockId_plus[of 0 r] by simp

lemma NewBlockId_roundtrip:
  assumes "0 \<le> b" "b \<le> 65535" "- (2 ^ 47) \<le> r" "r < 2 ^ 47"
  shows "NewBlockId r b = Returns (r * 65536 + b) \<and> RegionId (r * 65536 + b) = r
       \<and> BlockId (r * 65536 + b) = b"
proof -
  have "i64 (push_bit 16 r) = r * 65536"
    using assms by (simp add: push_bit_eq_mult i64_id)
  moreover have "(r * 65536 + b) div 65536 = r" using assms by simp
  moreover have "(r * 65536 + b) mod 65536 = b" using assms by simp
  ultimately show ?thesis
    using assms NewBlockId_plus[of b r]
    by (simp add: RegionId_def BlockId_mod drop_bit_eq_div)
qed

section \<open>A newly appended region\<close>

lemma header_sig: "map (header r n) [0, 1, 2, 3, 4, 5, 6, 7] = signature"
  by (simp add: header_def signature_def put64_outside consts_defs)

lemma header_size: "get64 (header r n) 16 = i64 n"
  by (simp add: header_def consts_defs get64_put64_same get64_put64_other)

lemma header_rid: "get64 (header r n) 24 = i64 r"
  by (simp add: header_def consts_defs get64_put64_same get64_put64_other)

lemma header_fp: "get64 (header r n) 8 = 32"
  by (simp add: header_def consts_defs get64_put64_same get64_put64_other i64_def)

lemma header_zero: "32 \<le> q \<Longrightarrow> get64 (header r n) q = 0"
  by (simp add: header_def consts_defs get64_put64_other get64_upd_other get64_zero)

lemma appendRegion_new:
  "16 \<le> n \<Longrightarrow> is_i64 n \<Longrightarrow> is_i64 r \<Longrightarrow> appendRegion r n = Returns (new_region r n)"
  by (simp add: appendRegion_def openRegion_def header_sig[simplified] header_size header_rid consts_defs
      i64_is_i64 new_region_def)

lemma new_region_fields [simp]: "rid (new_region r n) = r" "dlen (new_region r n) = n"
  by (simp_all add: new_region_def initBlockList_def)

lemma new_region_nextId: "nextId (new_region r n) = 0"
  by (simp add: nextId_def new_region_def initBlockList_def get64_put64_same i64_def)

lemma new_region_fp: "24 \<le> n \<Longrightarrow> getFreePointer (new_region r n) = 32"
  by (simp add: getFreePointer_def new_region_def initBlockList_def get64_put64_other header_fp consts_defs)

lemma new_region_get: "32 \<le> q \<Longrightarrow> q + 8 \<le> n - 8 \<Longrightarrow> get64 (d (new_region r n)) q = 0"
  by (simp add: new_region_def initBlockList_def get64_put64_other header_zero)

lemma OpenForUpdate_1: "OpenForUpdate 1 = Returns \<lparr>regions = [new_region 0 1048576]\<rparr>"
  by (simp add: OpenForUpdate_def appendRegion_new is_i64_def i64_def)

lemma get64_put64_below: "q + 8 \<le> p \<Longrightarrow> get64 (put64 m p v) q = get64 m q"
  by (simp add: get64_put64_other)

lemma get64_put64_above: "p + 8 \<le> q \<Longrightarrow> get64 (put64 m p v) q = get64 m q"
  by (simp add: get64_put64_other)

section \<open>Region operations\<close>

lemma regionBase_dvd: "65536 dvd regionBase r"
  by (simp add: regionBase_def i64_shift_dvd)

lemma is_i64_regionBase [simp]: "is_i64 (regionBase r)"
  by (simp add: regionBase_def)

lemma NewBlockId_base: "b \<le> 1048575 \<Longrightarrow> NewBlockId r b = Returns (regionBase r + b mod 65536)"
  using NewBlockId_plus[of b r] by (simp add: regionBase_def)

lemma BlockId_base: "BlockId (regionBase r + k) = k mod 65536"
proof -
  obtain q where "regionBase r = 65536 * q"
    using regionBase_dvd[of r] by (auto simp: dvd_def)
  then show ?thesis by (simp add: BlockId_mod)
qed

lemma getNextFreeBlockId_eq:
  "nextId r \<le> 1048575 \<Longrightarrow> getNextFreeBlockId r = Returns (regionBase (rid r) + nextId r mod 65536)"
  by (simp add: getNextFreeBlockId_def nextId_def NewBlockId_base)

lemma Available_eq:
  "nextId r \<le> 1048575 \<Longrightarrow>
   Available r = Returns (i64 (dlen r - getFreePointer r - 8 - nextId r mod 65536 * 16))"
  by (simp add: Available_def getNextFreeBlockId_eq BlockId_base Size_r_def consts_defs)

lemma Allocate_ok:
  assumes fp: "32 \<le> getFreePointer r"
    and c: "0 \<le> nextId r" "nextId r \<le> 65535"
    and n: "is_i64 (dlen r)"
    and sz: "0 \<le> sz" "sz \<le> dlen r - getFreePointer r - 8 - 16 * nextId r"
  shows "\<exists>r'. Allocate r sz =
            (Returns (if sz = 0 then None
                      else Some \<lparr>Id = regionBase (rid r) + nextId r,
                                 Bytes = (getFreePointer r, getFreePointer r + sz),
                                 Size = sz, Offset = getFreePointer r\<rparr>), r')
          \<and> rid r' = rid r \<and> dlen r' = dlen r
          \<and> getFreePointer r' = getFreePointer r + sz
          \<and> nextId r' = nextId r + 1
          \<and> entry r' (nextId r) = (getFreePointer r, sz)
          \<and> (\<forall>k. 0 \<le> k \<and> k < nextId r \<longrightarrow> entry r' k = entry r k)"
proof -
  define fp where "fp = getFreePointer r"
  define c where "c = nextId r"
  define n where "n = dlen r"
  define j where "j = n - 8 - 16 * c - 16"
  have fp_i64: "is_i64 fp" by (simp add: fp_def getFreePointer_def is_i64_get64)
  have bounds: "32 \<le> fp" "0 \<le> c" "c \<le> 65535" "sz \<le> n - fp - 8 - 16 * c" "0 \<le> sz"
    using assms by (simp_all add: fp_def c_def n_def)
  have n64: "- (2 ^ 63) \<le> n" "n < 2 ^ 63" using n by (simp_all add: n_def is_i64_def)
  have cm: "c mod 65536 = c" using bounds by simp
  have av: "Available r = Returns (n - fp - 8 - c * 16)"
    using bounds n64 fp_i64 Available_eq[of r]
    by (simp add: cm fp_def[symmetric] c_def[symmetric] n_def[symmetric] i64_id is_i64_def)
  have nx: "getNextFreeBlockId r = Returns (regionBase (rid r) + c)"
    using bounds getNextFreeBlockId_eq[of r] by (simp add: c_def[symmetric] cm)
  have slot: "getBlockListEntryBytes r (regionBase (rid r) + c) = Returns j"
    using bounds by (simp add: getBlockListEntryBytes_def BlockId_base cm consts_defs Let_def
        n_def[symmetric] j_def)
  have j: "16 \<le> j" "j + 16 \<le> n - 8" "24 \<le> n"
    using bounds by (simp_all add: j_def)
  define r1 where "r1 = r\<lparr>d := put64 (put64 (d r) j fp) (j + 8) sz\<rparr>"
  have set1: "setBlockListEntry r (regionBase (rid r) + c) fp sz = Returns r1"
    by (simp add: setBlockListEntry_def slot r1_def)
  have f1: "d r1 = put64 (put64 (d r) j fp) (j + 8) sz" "dlen r1 = n" "rid r1 = rid r"
    by (simp_all add: r1_def n_def)
  have slot1: "getBlockListEntryBytes r1 (regionBase (rid r) + c) = Returns j"
    using slot by (simp add: getBlockListEntryBytes_def r1_def)
  have sz64: "is_i64 sz" using bounds n64 by (simp add: is_i64_def)
  have sum64: "i64 (fp + sz) = fp + sz" using bounds n64 by (simp add: i64_id)
  have raw: "rawGetBlock r1 (regionBase (rid r) + c) =
       Returns (if sz = 0 then None
                else Some \<lparr>Id = regionBase (rid r) + c, Bytes = (fp, fp + sz), Size = sz, Offset = fp\<rparr>)"
    using bounds fp_i64 sz64
    by (simp add: rawGetBlock_def slot1 Let_def f1 get64_put64_same get64_put64_below
        i64_is_i64 sum64)
  define r2 where "r2 = setFreePointer r1 (fp + sz)"
  have cnt2: "nextId r2 = c"
    using j by (simp add: nextId_def r2_def setFreePointer_def f1 consts_defs
        get64_put64_above c_def n_def[symmetric])
  have rid2: "rid r2 = rid r" "dlen r2 = n"
    by (simp_all add: r2_def setFreePointer_def f1)
  define r3 where "r3 = r2\<lparr>d := put64 (d r2) (n - 8) (c + 1)\<rparr>"
  have inc: "incrementFreeBlockId r2 = (Returns (regionBase (rid r) + c), r3)"
    using bounds getNextFreeBlockId_eq[of r2]
    by (simp add: incrementFreeBlockId_def cnt2 rid2 cm BlockId_base r3_def)
  have alloc: "Allocate r sz = (Returns (if sz = 0 then None
                else Some \<lparr>Id = regionBase (rid r) + c, Bytes = (fp, fp + sz), Size = sz, Offset = fp\<rparr>), r3)"
    using bounds
    by (simp add: Allocate_def av nx set1 raw Size_r_def n_def[symmetric] fp_def[symmetric]
        sum64 r2_def[symmetric] inc Let_def)
  have c1: "is_i64 (c + 1)" using bounds by (simp add: is_i64_def)
  have f3: "getFreePointer r3 = fp + sz"
    using j sum64
    by (simp add: getFreePointer_def r3_def r2_def setFreePointer_def consts_defs
        get64_put64_below get64_put64_same)
  have n3: "nextId r3 = c + 1"
    using c1 by (simp add: nextId_def r3_def rid2 r2_def setFreePointer_def r1_def n_def[symmetric]
        get64_put64_same i64_is_i64)
  have e3: "entry r3 c = (fp, sz)"
    using j fp_i64 sz64
    by (simp add: entry_def slot_def consts_defs r3_def r2_def setFreePointer_def r1_def
        n_def[symmetric] j_def[symmetric] get64_put64_below get64_put64_above get64_put64_same
        i64_is_i64)
  have frame: "entry r3 k = entry r k" if "0 \<le> k" "k < c" for k
    using j that
    by (simp add: entry_def slot_def consts_defs r3_def r2_def setFreePointer_def r1_def
        n_def[symmetric] j_def get64_put64_below get64_put64_above)
  show ?thesis
    using alloc f3 n3 e3 frame
    by (auto simp: fp_def c_def n_def r3_def r2_def r1_def setFreePointer_def)
qed

section \<open>Claims\<close>

text \<open>
  C6. The claim: \<open>encode(regionIndex, blockIndex)\<close> fails for every block index above
  65535 and round-trips for every block index from 0 to 65535. \<open>NewBlockId\<close> compares with
  \<open>0xfffff\<close> (1048575), not with 65535 as its own panic message says: at block index 65536
  it returns an identifier, the one of block index 0, and it panics only from 1048576 on.
  (The round trip for block indexes 0 to 65535 is lemma \<open>NewBlockId_roundtrip\<close>.)
\<close>

theorem NewBlockId_bound: "NewBlockId 0 65536 = Returns 0 \<and> NewBlockId 0 0 = Returns 0
   \<and> NewBlockId 0 1048575 = Returns 65535 \<and> NewBlockId 0 1048576 = Panics BlockIdPanic"
  by (simp add: NewBlockId_def i64_def)

text \<open>
  C7. The claim: \<open>heap.getBlock(id)\<close> returns absent for an id whose region index is outside
  the heap's regions. \<open>Heap.GetBlock\<close> indexes \<open>h.regions\<close> with the region index without
  a check, so the call panics with an index out of range.
\<close>

theorem Heap_GetBlock_out_of_range:
  "RegionId b < 0 \<or> int (length (regions h)) \<le> RegionId b \<Longrightarrow> Heap_GetBlock h b = Panics IndexRange"
  by (auto simp: Heap_GetBlock_def Let_def)

theorem Heap_GetBlock_out_of_range_witness:
  "OpenForUpdate 1 = Returns \<lparr>regions = [new_region 0 1048576]\<rparr>
   \<and> NewBlockId 1 0 = Returns 65536
   \<and> Heap_GetBlock \<lparr>regions = [new_region 0 1048576]\<rparr> 65536 = Panics IndexRange"
  using Heap_GetBlock_out_of_range[of 65536 "\<lparr>regions = [new_region 0 1048576]\<rparr>"]
  by (simp add: OpenForUpdate_1 RegionId_def NewBlockId_def i64_def drop_bit_eq_div)

subsection \<open>Errors of \<open>Allocate\<close>; allocation in a new region\<close>

lemma getBlockListEntryBytes_not_Fails [simp]: "getBlockListEntryBytes r b \<noteq> Fails e"
  by (simp add: getBlockListEntryBytes_def Let_def)

lemma getNextFreeBlockId_not_Fails [simp]: "getNextFreeBlockId r \<noteq> Fails e"
  by (simp add: getNextFreeBlockId_def)

lemma setBlockListEntry_not_Fails [simp]: "setBlockListEntry r b off sz \<noteq> Fails e"
  by (simp add: setBlockListEntry_def split: outcome.splits)

lemma rawGetBlock_not_Fails [simp]: "rawGetBlock r b \<noteq> Fails e"
  by (simp add: rawGetBlock_def Let_def split: outcome.splits)

lemma incrementFreeBlockId_not_Fails [simp]: "fst (incrementFreeBlockId r) \<noteq> Fails e"
  by (simp add: incrementFreeBlockId_def split: outcome.splits)

lemma Allocate_Fails_iff:
  assumes "Available r = Returns a"
  shows "fst (Allocate r sz) = Fails e \<longleftrightarrow>
         (e = OutOfMemory \<and> a < sz) \<or> (e = BlockTooLarge \<and> sz \<le> a \<and> Size_r r < sz)"
proof -
  have inc: "\<And>r2 e r3. incrementFreeBlockId r2 \<noteq> (Fails e, r3)"
    using incrementFreeBlockId_not_Fails by (metis fst_conv)
  show ?thesis
    using assms
    by (auto simp: Allocate_def Let_def inc split: outcome.splits prod.splits)
qed

lemma Available_below_Size:
  assumes "Available r = Returns a" "0 \<le> getFreePointer r" "getFreePointer r \<le> dlen r"
    "is_i64 (dlen r)"
  shows "a < Size_r r"
proof -
  have "getNextFreeBlockId r \<noteq> Panics BlockIdPanic"
    using assms(1) by (auto simp: Available_def split: outcome.splits)
  then have c: "nextId r \<le> 1048575"
    by (auto simp: getNextFreeBlockId_def NewBlockId_def nextId_def split: if_splits)
  define k where "k = nextId r mod 65536"
  have m: "0 \<le> k" "k < 65536" by (simp_all add: k_def)
  have "i64 (dlen r - getFreePointer r - 8 - k * 16) = dlen r - getFreePointer r - 8 - k * 16"
    using assms(2-4) m by (intro i64_id) (simp_all add: is_i64_def)
  moreover have "a = i64 (dlen r - getFreePointer r - 8 - k * 16)"
    using assms(1) Available_eq[OF c] by (simp add: k_def)
  ultimately have "a = dlen r - getFreePointer r - 8 - k * 16" by (simp only:)
  then show ?thesis
    using assms(2) m by (simp add: Size_r_def)
qed

lemma new_region_Available:
  assumes "40 \<le> n" "is_i64 n"
  shows "Available (new_region r n) = Returns (n - 40)"
  using assms Available_eq[of "new_region r n"]
  by (simp add: new_region_nextId new_region_fp i64_id is_i64_def)

lemma new_region_Allocate:
  assumes "is_i64 n" "0 \<le> sz" "sz \<le> n - 40"
  shows "\<exists>r'. Allocate (new_region r n) sz =
            (Returns (if sz = 0 then None
                      else Some \<lparr>Id = regionBase r, Bytes = (32, 32 + sz), Size = sz, Offset = 32\<rparr>), r')
          \<and> rid r' = r \<and> dlen r' = n \<and> getFreePointer r' = 32 + sz \<and> nextId r' = 1
          \<and> entry r' 0 = (32, sz)"
proof -
  have fp: "getFreePointer (new_region r n) = 32"
    using assms by (simp add: new_region_fp)
  have "\<exists>r'. Allocate (new_region r n) sz =
            (Returns (if sz = 0 then None
                      else Some \<lparr>Id = regionBase (rid (new_region r n)) + nextId (new_region r n),
                                 Bytes = (getFreePointer (new_region r n), getFreePointer (new_region r n) + sz),
                                 Size = sz, Offset = getFreePointer (new_region r n)\<rparr>), r')
          \<and> rid r' = rid (new_region r n) \<and> dlen r' = dlen (new_region r n)
          \<and> getFreePointer r' = getFreePointer (new_region r n) + sz
          \<and> nextId r' = nextId (new_region r n) + 1
          \<and> entry r' (nextId (new_region r n)) = (getFreePointer (new_region r n), sz)
          \<and> (\<forall>k. 0 \<le> k \<and> k < nextId (new_region r n) \<longrightarrow> entry r' k = entry (new_region r n) k)"
    using assms by (intro Allocate_ok) (simp_all add: fp new_region_nextId)
  then obtain r' where "Allocate (new_region r n) sz =
            (Returns (if sz = 0 then None
                      else Some \<lparr>Id = regionBase r, Bytes = (32, 32 + sz), Size = sz, Offset = 32\<rparr>), r')"
     "rid r' = r" "dlen r' = n" "getFreePointer r' = 32 + sz" "nextId r' = 1" "entry r' 0 = (32, sz)"
    unfolding fp new_region_nextId new_region_fields by auto
  then show ?thesis by blast
qed

text \<open>
  C2. The claim: \<open>region.allocate(size)\<close> fails with \<open>OutOfMemory\<close> exactly when
  \<open>size > availableBytes()\<close> and the size does not exceed the capacity of the empty region,
  and with \<open>BlockTooLarge\<close> when the size exceeds that capacity. As amended:
  \<open>Allocate\<close> tests \<open>size > r.Available()\<close> first, so it fails with \<open>OutOfMemory\<close>
  exactly when the size exceeds the available bytes, whatever the size; it fails with
  \<open>BlockTooLarge\<close> only when the size is at most the available bytes and above the size of
  the region, which no region whose free pointer lies between 0 and its size admits.
\<close>

theorem Allocate_errors:
  assumes "Available r = Returns a"
  shows "(fst (Allocate r sz) = Fails OutOfMemory \<longleftrightarrow> a < sz)
       \<and> (fst (Allocate r sz) = Fails BlockTooLarge \<longleftrightarrow> sz \<le> a \<and> Size_r r < sz)
       \<and> (0 \<le> getFreePointer r \<and> getFreePointer r \<le> dlen r \<and> is_i64 (dlen r)
            \<longrightarrow> fst (Allocate r sz) \<noteq> Fails BlockTooLarge)"
proof (intro conjI impI)
  show "fst (Allocate r sz) = Fails OutOfMemory \<longleftrightarrow> a < sz"
    by (simp add: Allocate_Fails_iff[OF assms])
  show "fst (Allocate r sz) = Fails BlockTooLarge \<longleftrightarrow> sz \<le> a \<and> Size_r r < sz"
    by (simp add: Allocate_Fails_iff[OF assms])
  assume "0 \<le> getFreePointer r \<and> getFreePointer r \<le> dlen r \<and> is_i64 (dlen r)"
  then have "a < Size_r r"
    using Available_below_Size[OF assms] by blast
  then show "fst (Allocate r sz) \<noteq> Fails BlockTooLarge"
    by (simp add: Allocate_Fails_iff[OF assms])
qed

theorem Allocate_errors_witness:
  "Available (new_region 0 1048576) = Returns 1048536
   \<and> (fst (Allocate (new_region 0 1048576) 2097152) = Fails OutOfMemory \<longleftrightarrow> (1048536::int) < 2097152)
   \<and> fst (Allocate (new_region 0 1048576) 2097152) \<noteq> Fails BlockTooLarge"
proof -
  have a: "Available (new_region 0 1048576) = Returns 1048536"
    using new_region_Available[of 1048576 0] by (simp add: is_i64_def)
  show ?thesis
    using Allocate_errors[OF a, of 2097152] a
    by (simp add: new_region_fp is_i64_def)
qed

text \<open>
  The claim fails in a new region of 1 MiB: a request of 2 MiB, which can never fit it,
  is reported as \<open>OutOfMemory\<close>.
\<close>

theorem oversized_request_is_OutOfMemory:
  "appendRegion 0 1048576 = Returns (new_region 0 1048576)
   \<and> Size_r (new_region 0 1048576) = 1048576
   \<and> Allocate (new_region 0 1048576) 2097152 = (Fails OutOfMemory, new_region 0 1048576)"
proof -
  have a: "Available (new_region 0 1048576) = Returns 1048536"
    using new_region_Available[of 1048576 0] by (simp add: is_i64_def)
  show ?thesis
    by (simp add: appendRegion_new is_i64_def Size_r_def Allocate_def a)
qed

text \<open>
  C3. The claim: the byte range of every live block lies between the header and the block
  list in use, also after an \<open>allocate\<close> of exactly \<open>availableBytes()\<close>.
  \<open>Available\<close> does not count the 16 bytes of the entry that the allocation itself adds
  to the block list. In a new region of 1 MiB, 1048536 bytes are available; allocating them
  returns the block of bytes 32 to 1048568, and its own entry, the 16 bytes from 1048552,
  lies inside it. Afterwards \<open>Available\<close> is negative.
\<close>

theorem exact_fit_overlaps_block_list:
  "Available (new_region 0 1048576) = Returns 1048536
   \<and> fst (Allocate (new_region 0 1048576) 1048536)
       = Returns (Some \<lparr>Id = 0, Bytes = (32, 1048568), Size = 1048536, Offset = 32\<rparr>)
   \<and> getBlockListEntryBytes (snd (Allocate (new_region 0 1048576) 1048536)) 0 = Returns 1048552
   \<and> entry (snd (Allocate (new_region 0 1048576) 1048536)) 0 = (32, 1048536)
   \<and> Available (snd (Allocate (new_region 0 1048576) 1048536)) = Returns (- 16)"
proof -
  have a: "Available (new_region 0 1048576) = Returns 1048536"
    using new_region_Available[of 1048576 0] by (simp add: is_i64_def)
  obtain r' where r': "Allocate (new_region 0 1048576) 1048536 =
       (Returns (Some \<lparr>Id = regionBase 0, Bytes = (32, 1048568), Size = 1048536, Offset = 32\<rparr>), r')"
     "rid r' = 0" "dlen r' = 1048576" "getFreePointer r' = 1048568" "nextId r' = 1"
     "entry r' 0 = (32, 1048536)"
    using new_region_Allocate[of 1048576 1048536 0] by (auto simp: is_i64_def)
  have b: "regionBase 0 = 0" by (simp add: regionBase_def i64_def)
  have s: "getBlockListEntryBytes r' 0 = Returns 1048552"
    by (simp add: getBlockListEntryBytes_def Let_def r' consts_defs BlockId_def)
  have av: "Available r' = Returns (- 16)"
    using Available_eq[of r'] by (simp add: r' i64_def)
  show ?thesis by (simp add: a r' b s av)
qed

subsection \<open>\<open>Free\<close>\<close>

lemma slot_eq: "slot r k = dlen r - 24 - 16 * k"
  by (simp add: slot_def consts_defs)

lemma getBlockListEntryBytes_slot:
  "0 \<le> slot r (BlockId bid) \<Longrightarrow> getBlockListEntryBytes r bid = Returns (slot r (BlockId bid))"
  using BlockId_range[of bid]
  by (simp add: getBlockListEntryBytes_def slot_def consts_defs Let_def)

lemma getBlockListEntryBytes_Panics:
  "slot r (BlockId bid) < 0 \<Longrightarrow> getBlockListEntryBytes r bid = Panics SliceBounds"
  by (simp add: getBlockListEntryBytes_def slot_def consts_defs Let_def)

lemma BlockId_base_id: "0 \<le> k \<Longrightarrow> k \<le> 65535 \<Longrightarrow> BlockId (regionBase r + k) = k"
  by (simp add: BlockId_base)

lemma i64_0 [simp]: "i64 0 = 0"
  by (simp add: i64_def)

lemma regionBase_bounds: "- (2 ^ 63) \<le> regionBase r" "regionBase r + 65536 \<le> 2 ^ 63"
proof -
  obtain q where q: "regionBase r = 65536 * q"
    using regionBase_dvd[of r] by (auto simp: dvd_def)
  have rb: "- (2 ^ 63) \<le> regionBase r" "regionBase r < 2 ^ 63"
    using is_i64_regionBase[of r] by (simp_all add: is_i64_def)
  then show "- (2 ^ 63) \<le> regionBase r" by simp
  have "q < 2 ^ 47" using rb(2) by (simp add: q)
  then have "q + 1 \<le> 2 ^ 47" by simp
  then show "regionBase r + 65536 \<le> 2 ^ 63" by (simp add: q)
qed

lemma Free_sentinel:
  assumes "0 \<le> slot r (BlockId (Id b))" "entry r (BlockId (Id b)) = (0, 0)"
  shows "Free r b = (Returns False, r)"
  using assms by (simp add: Free_def getBlockListEntryBytes_slot entry_def)

lemma Free_live:
  assumes c: "0 \<le> nextId r" "nextId r \<le> 65535"
    and k: "0 \<le> k" "k \<le> 65535" "Id b = regionBase (rid r) + k"
    and slot: "16 \<le> slot r k"
    and e: "entry r k = (off, sz)" "(off, sz) \<noteq> (0, 0)"
  shows "\<exists>r'. Free r b = (Returns True, r') \<and> rid r' = rid r \<and> dlen r' = dlen r
         \<and> entry r' k = (0, 0)
         \<and> (\<forall>k'. 0 \<le> k' \<and> k' \<noteq> k \<and> 16 \<le> slot r k' \<longrightarrow> entry r' k' = entry r k')
         \<and> (if k = nextId r - 1
              then getFreePointer r' = off \<and> nextId r' = k
              else getFreePointer r' = getFreePointer r \<and> nextId r' = nextId r)"
proof -
  define n where "n = dlen r"
  define c where "c = nextId r"
  define j where "j = slot r k"
  have bk: "BlockId (Id b) = k" using k by (simp add: BlockId_base_id)
  have j: "16 \<le> j" "j + 16 \<le> n - 8" using slot k by (simp_all add: j_def n_def slot_eq)
  have s: "getBlockListEntryBytes r (Id b) = Returns j"
    using j getBlockListEntryBytes_slot[of r "Id b"] by (simp add: bk j_def)
  have eo: "get64 (d r) j = off" "get64 (d r) (j + 8) = sz"
    using e(1) by (simp_all add: entry_def j_def)
  have off64: "is_i64 off" using eo(1) is_i64_get64 by blast
  define r1 where "r1 = r\<lparr>d := put64 (put64 (d r) j 0) (j + 8) 0\<rparr>"
  have f1: "d r1 = put64 (put64 (d r) j 0) (j + 8) 0" "dlen r1 = n" "rid r1 = rid r"
    by (simp_all add: r1_def n_def)
  have sl1: "\<And>k'. slot r1 k' = slot r k'" by (simp add: slot_def f1 n_def)
  have set1: "setBlockListEntry r (Id b) 0 0 = Returns r1"
    by (simp add: setBlockListEntry_def s r1_def)
  have cnt1: "nextId r1 = c"
    using j by (simp add: nextId_def f1 get64_put64_above c_def n_def[symmetric])
  have fp1: "getFreePointer r1 = getFreePointer r"
    using j by (simp add: getFreePointer_def f1 consts_defs get64_put64_below)
  have cm: "c mod 65536 = c" using c by (simp add: c_def)
  have nx1: "getNextFreeBlockId r1 = Returns (regionBase (rid r) + c)"
    using c getNextFreeBlockId_eq[of r1] by (simp add: cnt1 f1 cm c_def[symmetric])
  have e1: "entry r1 k = (0, 0)"
    by (simp add: entry_def sl1 j_def[symmetric] f1 get64_put64_same get64_put64_below)
  have fr1: "entry r1 k' = entry r k'" if "0 \<le> k'" "k' \<noteq> k" for k'
  proof (cases "k' < k")
    case True
    then have "j + 16 \<le> slot r k'" by (simp add: j_def slot_eq)
    then show ?thesis
      by (simp add: entry_def sl1 f1 get64_put64_above)
  next
    case False
    then have "slot r k' + 16 \<le> j" using that by (simp add: j_def slot_eq)
    then show ?thesis
      by (simp add: entry_def sl1 f1 get64_put64_below)
  qed
  have last_iff: "Id b = i64 (regionBase (rid r) + c - 1) \<longleftrightarrow> k = c - 1"
  proof (cases "c = 0")
    case True
    have rb: "- (2 ^ 63) \<le> regionBase (rid r)" "regionBase (rid r) < 2 ^ 63"
      using is_i64_regionBase[of "rid r"] by (simp_all add: is_i64_def)
    have "regionBase (rid r) + k \<noteq> i64 (regionBase (rid r) - 1)"
    proof (cases "- (2 ^ 63) \<le> regionBase (rid r) - 1")
      case True
      then have "i64 (regionBase (rid r) - 1) = regionBase (rid r) - 1"
        using rb by (intro i64_id) simp_all
      then show ?thesis using k by simp
    next
      case False
      then have "regionBase (rid r) = - (2 ^ 63)" using rb by simp
      then show ?thesis using k by (simp add: i64_def)
    qed
    then show ?thesis using True k by simp
  next
    case False
    have rb: "- (2 ^ 63) \<le> regionBase (rid r)" "regionBase (rid r) + 65536 \<le> 2 ^ 63"
      by (rule regionBase_bounds)+
    then have "i64 (regionBase (rid r) + c - 1) = regionBase (rid r) + c - 1"
      using c False by (intro i64_id) (simp_all add: c_def)
    then show ?thesis using k by auto
  qed
  show ?thesis
  proof (cases "k = c - 1")
    case False
    then have "Free r b = (Returns True, r1)"
      using e(2) by (simp add: Free_def s eo set1 nx1 last_iff)
    then show ?thesis
      using False e1 fr1 cnt1 fp1 by (auto simp: f1 n_def c_def)
  next
    case True
    define r2 where "r2 = setNextFreeBlockId (setFreePointer r1 off) (Id b)"
    have d2: "d r2 = put64 (put64 (d r1) 8 off) (n - 8) k" "dlen r2 = n" "rid r2 = rid r"
      by (simp_all add: r2_def setNextFreeBlockId_def setFreePointer_def f1 consts_defs bk)
    have sl2: "\<And>k'. slot r2 k' = slot r k'" by (simp add: slot_def d2 n_def)
    have "Free r b = (Returns True, r2)"
      using e(2) True by (simp add: Free_def s eo set1 nx1 last_iff r2_def)
    moreover have "getFreePointer r2 = off"
      using j off64 by (simp add: getFreePointer_def d2 consts_defs get64_put64_below get64_put64_same i64_is_i64)
    moreover have "nextId r2 = k"
      using k by (simp add: nextId_def d2 get64_put64_same i64_id)
    moreover have "entry r2 k = (0, 0)"
      using j e1 by (simp add: entry_def sl2 sl1 j_def[symmetric] d2 get64_put64_below get64_put64_above)
    moreover have "entry r2 k' = entry r k'" if "0 \<le> k'" "k' \<noteq> k" "16 \<le> slot r k'" for k'
    proof -
      have "slot r k' + 16 \<le> n - 8" using that by (simp add: slot_eq n_def)
      then have "entry r2 k' = entry r1 k'"
        using that by (simp add: entry_def sl2 sl1 d2 get64_put64_below get64_put64_above)
      then show ?thesis using fr1 that by simp
    qed
    ultimately show ?thesis
      using True by (auto simp: d2 n_def c_def)
  qed
qed

lemma region_ok_slot:
  assumes "region_ok r" "k < nextId r"
  shows "16 \<le> slot r k"
  using assms by (simp add: region_ok_def slot_eq)


lemma Free_twice:
  assumes "0 \<le> nextId r" "nextId r \<le> 65535"
    and "0 \<le> k" "k \<le> 65535" "Id b = regionBase (rid r) + k"
    and "16 \<le> slot r k" "entry r k \<noteq> (0, 0)"
  shows "fst (Free r b) = Returns True \<and> Free (snd (Free r b)) b = (Returns False, snd (Free r b))"
proof -
  obtain off sz where e: "entry r k = (off, sz)" by (cases "entry r k")
  obtain r' where r': "Free r b = (Returns True, r')" "rid r' = rid r" "dlen r' = dlen r"
      "entry r' k = (0, 0)"
    using Free_live[OF assms(1-6) e] assms(7) e by auto
  have bk: "BlockId (Id b) = k" using assms by (simp add: BlockId_base_id)
  have "0 \<le> slot r' k" using assms(6) r'(3) by (simp add: slot_def)
  then have "Free r' b = (Returns False, r')"
    using r'(4) by (intro Free_sentinel) (simp_all add: bk)
  then show ?thesis by (simp add: r')
qed

lemma Allocate_ok_snd:
  assumes "region_ok r" "0 \<le> sz" "sz \<le> dlen r - getFreePointer r - 8 - 16 * nextId r"
  shows "fst (Allocate r sz) =
           Returns (if sz = 0 then None
                    else Some \<lparr>Id = regionBase (rid r) + nextId r,
                               Bytes = (getFreePointer r, getFreePointer r + sz),
                               Size = sz, Offset = getFreePointer r\<rparr>)"
    and "rid (snd (Allocate r sz)) = rid r"
    and "dlen (snd (Allocate r sz)) = dlen r"
    and "getFreePointer (snd (Allocate r sz)) = getFreePointer r + sz"
    and "nextId (snd (Allocate r sz)) = nextId r + 1"
    and "entry (snd (Allocate r sz)) (nextId r) = (getFreePointer r, sz)"
    and "\<And>k. 0 \<le> k \<Longrightarrow> k < nextId r \<Longrightarrow> entry (snd (Allocate r sz)) k = entry r k"
    and "nextId r < 65535 \<Longrightarrow> region_ok (snd (Allocate r sz))"
proof -
  have c: "32 \<le> getFreePointer r" "0 \<le> nextId r" "nextId r \<le> 65535" "is_i64 (dlen r)"
    using assms(1) by (simp_all add: region_ok_def)
  obtain r' where r': "Allocate r sz =
            (Returns (if sz = 0 then None
                      else Some \<lparr>Id = regionBase (rid r) + nextId r,
                                 Bytes = (getFreePointer r, getFreePointer r + sz),
                                 Size = sz, Offset = getFreePointer r\<rparr>), r')"
     "rid r' = rid r" "dlen r' = dlen r" "getFreePointer r' = getFreePointer r + sz"
     "nextId r' = nextId r + 1" "entry r' (nextId r) = (getFreePointer r, sz)"
     "\<forall>k. 0 \<le> k \<and> k < nextId r \<longrightarrow> entry r' k = entry r k"
    using Allocate_ok[OF c assms(2,3)] by blast
  show "fst (Allocate r sz) =
           Returns (if sz = 0 then None
                    else Some \<lparr>Id = regionBase (rid r) + nextId r,
                               Bytes = (getFreePointer r, getFreePointer r + sz),
                               Size = sz, Offset = getFreePointer r\<rparr>)"
    by (simp add: r')
  show "rid (snd (Allocate r sz)) = rid r" "dlen (snd (Allocate r sz)) = dlen r"
    "getFreePointer (snd (Allocate r sz)) = getFreePointer r + sz"
    "nextId (snd (Allocate r sz)) = nextId r + 1"
    "entry (snd (Allocate r sz)) (nextId r) = (getFreePointer r, sz)"
    by (simp_all add: r')
  show "\<And>k. 0 \<le> k \<Longrightarrow> k < nextId r \<Longrightarrow> entry (snd (Allocate r sz)) k = entry r k"
    using r'(7) by (simp add: r'(1))
  show "nextId r < 65535 \<Longrightarrow> region_ok (snd (Allocate r sz))"
    using c assms by (simp add: region_ok_def r')
qed

lemma new_region_ok: "24 \<le> n \<Longrightarrow> is_i64 n \<Longrightarrow> region_ok (new_region r n)"
  by (simp add: region_ok_def new_region_fp new_region_nextId)

lemma regionBase_0 [simp]: "regionBase 0 = 0"
  by (simp add: regionBase_def)

lemma Allocate_1000:
  "region_ok (snd (Allocate (new_region 0 1048576) 1000))"
  "fst (Allocate (new_region 0 1048576) 1000)
     = Returns (Some \<lparr>Id = 0, Bytes = (32, 1032), Size = 1000, Offset = 32\<rparr>)"
  "rid (snd (Allocate (new_region 0 1048576) 1000)) = 0"
  "dlen (snd (Allocate (new_region 0 1048576) 1000)) = 1048576"
  "getFreePointer (snd (Allocate (new_region 0 1048576) 1000)) = 1032"
  "nextId (snd (Allocate (new_region 0 1048576) 1000)) = 1"
  "entry (snd (Allocate (new_region 0 1048576) 1000)) 0 = (32, 1000)"
  "Available (snd (Allocate (new_region 0 1048576) 1000)) = Returns 1047520"
proof -
  have ok: "region_ok (new_region 0 1048576)"
    by (simp add: new_region_ok is_i64_def)
  note a = Allocate_ok_snd[OF ok, of 1000, simplified new_region_fp new_region_nextId new_region_fields]
  show "region_ok (snd (Allocate (new_region 0 1048576) 1000))"
    "fst (Allocate (new_region 0 1048576) 1000)
     = Returns (Some \<lparr>Id = 0, Bytes = (32, 1032), Size = 1000, Offset = 32\<rparr>)"
    "rid (snd (Allocate (new_region 0 1048576) 1000)) = 0"
    "dlen (snd (Allocate (new_region 0 1048576) 1000)) = 1048576"
    "getFreePointer (snd (Allocate (new_region 0 1048576) 1000)) = 1032"
    "nextId (snd (Allocate (new_region 0 1048576) 1000)) = 1"
    "entry (snd (Allocate (new_region 0 1048576) 1000)) 0 = (32, 1000)"
    using a by (simp_all add: new_region_fp new_region_nextId)
  then show "Available (snd (Allocate (new_region 0 1048576) 1000)) = Returns 1047520"
    using Available_eq[of "snd (Allocate (new_region 0 1048576) 1000)"]
    by (simp add: i64_def)
qed

text \<open>
  C5. The claim: freeing the most recently allocated live block B increases \<open>available()\<close>
  by exactly B's size, rolls the free pointer back to B's offset and decrements the id
  counter; freeing a live block that is not the most recently allocated slot leaves
  \<open>available()\<close> unchanged. As amended: for a live block B whose id is the id counter minus
  one, \<open>Free\<close> returns true, sets the free pointer to the offset of B's entry and the id
  counter to B's block index, so that \<open>Available\<close> grows by B's size plus the 16 bytes of
  B's block-list entry when the free pointer stood at the end of B; for a live block with
  another id below the counter, \<open>Free\<close> returns true and leaves the free pointer, the counter
  and \<open>Available\<close> unchanged.
\<close>

theorem Free_reclaims:
  assumes "region_ok r" and "0 \<le> k" "k < nextId r" "Id b = regionBase (rid r) + k"
    and "entry r k = (off, sz)" "(off, sz) \<noteq> (0, 0)" and "Available r = Returns a"
  shows "fst (Free r b) = Returns True
       \<and> (k = nextId r - 1 \<longrightarrow>
            getFreePointer (snd (Free r b)) = off \<and> nextId (snd (Free r b)) = nextId r - 1
            \<and> (32 \<le> off \<and> 0 \<le> sz \<and> off + sz = getFreePointer r
                 \<longrightarrow> Available (snd (Free r b)) = Returns (a + sz + 16)))
       \<and> (k \<noteq> nextId r - 1 \<longrightarrow>
            getFreePointer (snd (Free r b)) = getFreePointer r
            \<and> nextId (snd (Free r b)) = nextId r
            \<and> Available (snd (Free r b)) = Returns a)"
proof -
  have c: "0 \<le> nextId r" "nextId r \<le> 65535" "is_i64 (dlen r)" "32 \<le> getFreePointer r"
    "getFreePointer r + 16 * nextId r \<le> dlen r + 8"
    using assms(1) by (simp_all add: region_ok_def)
  have k: "k \<le> 65535" using assms(3) c by simp
  have s: "16 \<le> slot r k" using region_ok_slot[OF assms(1,3)] .
  obtain r' where r': "Free r b = (Returns True, r')" "rid r' = rid r" "dlen r' = dlen r"
      "if k = nextId r - 1 then getFreePointer r' = off \<and> nextId r' = k
       else getFreePointer r' = getFreePointer r \<and> nextId r' = nextId r"
    using Free_live[OF c(1,2) assms(2) k assms(4) s assms(5,6)] by auto
  have a: "a = i64 (dlen r - getFreePointer r - 8 - nextId r * 16)"
    using assms(7) Available_eq[of r] c by simp
  have n64: "- (2 ^ 63) \<le> dlen r" "dlen r < 2 ^ 63" using c(3) by (simp_all add: is_i64_def)
  have last: "Available r' = Returns (a + sz + 16)"
    if "k = nextId r - 1" "32 \<le> off" "0 \<le> sz" "off + sz = getFreePointer r"
  proof -
    have f: "getFreePointer r' = off" "nextId r' = nextId r - 1" using r'(4) that(1) by simp_all
    have "nextId r' mod 65536 = nextId r - 1" using f c assms(2,3) that(1) by simp
    then have "Available r' = Returns (i64 (dlen r - off - 8 - (nextId r - 1) * 16))"
      using Available_eq[of r'] c f by (simp add: r')
    moreover have "i64 (dlen r - off - 8 - (nextId r - 1) * 16) = dlen r - off - 8 - (nextId r - 1) * 16"
      using that c n64 by (intro i64_id) simp_all
    moreover have "i64 (dlen r - getFreePointer r - 8 - nextId r * 16) = dlen r - getFreePointer r - 8 - nextId r * 16"
      using that c n64 by (intro i64_id) simp_all
    ultimately show ?thesis using a that by simp
  qed
  have other: "Available r' = Returns a" if "k \<noteq> nextId r - 1"
  proof -
    have f: "getFreePointer r' = getFreePointer r" "nextId r' = nextId r" using r'(4) that by simp_all
    show ?thesis using Available_eq[of r'] c f a by (simp add: r')
  qed
  show ?thesis
    using r' last other by auto
qed

theorem Free_reclaims_witness:
  "region_ok (snd (Allocate (new_region 0 1048576) 1000))
   \<and> entry (snd (Allocate (new_region 0 1048576) 1000)) 0 = (32, 1000)
   \<and> Available (snd (Allocate (new_region 0 1048576) 1000)) = Returns 1047520
   \<and> fst (Free (snd (Allocate (new_region 0 1048576) 1000))
              \<lparr>Id = 0, Bytes = (32, 1032), Size = 1000, Offset = 32\<rparr>) = Returns True
   \<and> getFreePointer (snd (Free (snd (Allocate (new_region 0 1048576) 1000))
              \<lparr>Id = 0, Bytes = (32, 1032), Size = 1000, Offset = 32\<rparr>)) = 32
   \<and> nextId (snd (Free (snd (Allocate (new_region 0 1048576) 1000))
              \<lparr>Id = 0, Bytes = (32, 1032), Size = 1000, Offset = 32\<rparr>)) = 0
   \<and> Available (snd (Free (snd (Allocate (new_region 0 1048576) 1000))
              \<lparr>Id = 0, Bytes = (32, 1032), Size = 1000, Offset = 32\<rparr>)) = Returns (1047520 + 1000 + 16)"
  using Free_reclaims[OF Allocate_1000(1), of 0 "\<lparr>Id = 0, Bytes = (32, 1032), Size = 1000, Offset = 32\<rparr>"
      32 1000 1047520]
  by (simp add: Allocate_1000)

text \<open>
  The claim fails in a new region of 1 MiB: after allocating one block of 1000 bytes
  1047520 bytes are available, and freeing the block makes 1048536 available, 1016 more
  and not 1000.
\<close>

theorem Free_reclaims_block_and_entry:
  "fst (Allocate (new_region 0 1048576) 1000)
     = Returns (Some \<lparr>Id = 0, Bytes = (32, 1032), Size = 1000, Offset = 32\<rparr>)
   \<and> Available (snd (Allocate (new_region 0 1048576) 1000)) = Returns 1047520
   \<and> fst (Free (snd (Allocate (new_region 0 1048576) 1000))
              \<lparr>Id = 0, Bytes = (32, 1032), Size = 1000, Offset = 32\<rparr>) = Returns True
   \<and> Available (snd (Free (snd (Allocate (new_region 0 1048576) 1000))
              \<lparr>Id = 0, Bytes = (32, 1032), Size = 1000, Offset = 32\<rparr>)) = Returns 1048536"
proof -
  let ?r = "snd (Allocate (new_region 0 1048576) 1000)"
  let ?b = "\<lparr>Id = 0, Bytes = (32, 1032), Size = 1000, Offset = 32\<rparr>"
  have s: "16 \<le> slot ?r 0" by (simp add: slot_eq Allocate_1000)
  obtain r' where r': "Free ?r ?b = (Returns True, r')" "rid r' = 0" "dlen r' = 1048576"
      "getFreePointer r' = 32" "nextId r' = 0"
    using Free_live[of ?r 0 ?b 32 1000] s by (auto simp: Allocate_1000)
  have "Available r' = Returns 1048536"
    using Available_eq[of r'] by (simp add: r' i64_def)
  then show ?thesis by (simp add: Allocate_1000 r')
qed

text \<open>
  C8. The claim: \<open>free\<close> of an allocated block returns true, then false, and \<open>free\<close> on an
  id whose block-list slot was never allocated returns false and leaves the region
  unchanged. \<open>Free\<close> reads the entry of the block index without comparing the id with the
  id counter (as \<open>GetBlock\<close> does). In a new region of 1 MiB the entry of block index 65534
  is the 16 bytes from offset 8, the free pointer and the stored size of the region:
  \<open>Free\<close> on that id, which was never allocated, returns true and writes zeros over both,
  and on block index 65535 it panics. (For a block with a live entry above the header,
  lemma \<open>Free_twice\<close> gives true, then false and an unchanged region.)
\<close>

theorem Free_unallocated_id_corrupts:
  "nextId (new_region 0 1048576) = 0
   \<and> getFreePointer (new_region 0 1048576) = 32
   \<and> GetBlock (new_region 0 1048576) 65534 = Returns None
   \<and> fst (Free (new_region 0 1048576) \<lparr>Id = 65534, Bytes = (0, 0), Size = 0, Offset = 0\<rparr>)
        = Returns True
   \<and> getFreePointer (snd (Free (new_region 0 1048576)
        \<lparr>Id = 65534, Bytes = (0, 0), Size = 0, Offset = 0\<rparr>)) = 0
   \<and> fst (Free (new_region 0 1048576) \<lparr>Id = 65535, Bytes = (0, 0), Size = 0, Offset = 0\<rparr>)
        = Panics SliceBounds"
proof -
  let ?r = "new_region 0 1048576"
  let ?b = "\<lparr>Id = 65534, Bytes = (0, 0), Size = 0, Offset = 0\<rparr>"
  have nx: "getNextFreeBlockId ?r = Returns 0"
    using getNextFreeBlockId_eq[of ?r] by (simp add: new_region_nextId)
  have g: "GetBlock ?r 65534 = Returns None"
    by (simp add: GetBlock_def nx NewBlockId_0 regionBase_def[symmetric])
  have b: "BlockId 65534 = 65534" "BlockId 65535 = 65535" by (simp_all add: BlockId_mod)
  have s: "getBlockListEntryBytes ?r 65534 = Returns 8"
    using getBlockListEntryBytes_slot[of ?r 65534] by (simp add: b slot_eq)
  have p: "getBlockListEntryBytes ?r 65535 = Panics SliceBounds"
    using getBlockListEntryBytes_Panics[of ?r 65535] by (simp add: b slot_eq)
  have d: "d ?r = put64 (header 0 1048576) 1048568 0"
    by (simp add: new_region_def initBlockList_def)
  have e: "get64 (d ?r) 8 = 32" "get64 (d ?r) 16 = 1048576"
    by (simp_all add: d get64_put64_below header_fp header_size i64_def)
  define r1 where "r1 = ?r\<lparr>d := put64 (put64 (d ?r) 8 0) 16 0\<rparr>"
  have s1: "setBlockListEntry ?r 65534 0 0 = Returns r1"
    by (simp add: setBlockListEntry_def s r1_def)
  have n1: "nextId r1 = 0"
    by (simp add: nextId_def r1_def d get64_put64_above get64_put64_same)
  have nx1: "getNextFreeBlockId r1 = Returns 0"
    using getNextFreeBlockId_eq[of r1] by (simp add: n1) (simp add: r1_def)
  have f: "Free ?r ?b = (Returns True, r1)"
    by (simp add: Free_def s e s1 nx1 i64_def)
  have fp1: "getFreePointer r1 = 0"
    by (simp add: getFreePointer_def consts_defs r1_def get64_put64_below get64_put64_same)
  have f2: "fst (Free ?r \<lparr>Id = 65535, Bytes = (0, 0), Size = 0, Offset = 0\<rparr>) = Panics SliceBounds"
    by (simp add: Free_def p)
  show ?thesis
    by (simp add: new_region_nextId new_region_fp g f fp1 f2)
qed

subsection \<open>\<open>GetBlock\<close> and \<open>Blocks\<close>\<close>

lemma rawGetBlock_entry:
  assumes "0 \<le> slot r (BlockId bid)"
  shows "rawGetBlock r bid =
     (case entry r (BlockId bid) of (off, sz) \<Rightarrow>
        if off = 0 \<or> sz = 0 then Returns None
        else if 0 \<le> off \<and> off \<le> i64 (off + sz) \<and> i64 (off + sz) \<le> dlen r
        then Returns (Some \<lparr>Id = bid, Bytes = (off, i64 (off + sz)), Size = sz, Offset = off\<rparr>)
        else Panics SliceBounds)"
  using assms by (simp add: rawGetBlock_def getBlockListEntryBytes_slot entry_def Let_def)

lemma rawGetBlock_Id: "rawGetBlock r bid = Returns (Some b) \<Longrightarrow> Id b = bid"
  by (auto simp: rawGetBlock_def Let_def split: outcome.splits if_splits)

lemma rawGetBlock_zero_size:
  "snd (entry r (BlockId bid)) = 0 \<Longrightarrow> rawGetBlock r bid \<noteq> Returns (Some b)"
  by (auto simp: rawGetBlock_def Let_def entry_def getBlockListEntryBytes_def slot_def
      split: outcome.splits if_splits)

lemma GetBlock_eq:
  assumes "nextId r \<le> 1048575"
  shows "GetBlock r bid =
     (if bid < regionBase (rid r) \<or> regionBase (rid r) + nextId r mod 65536 \<le> bid
      then Returns None else rawGetBlock r bid)"
  using assms by (simp add: GetBlock_def getNextFreeBlockId_eq NewBlockId_0 regionBase_def[symmetric])

lemma GetBlock_Id: "GetBlock r bid = Returns (Some b) \<Longrightarrow> Id b = bid"
  by (auto simp: GetBlock_def rawGetBlock_Id split: outcome.splits if_splits)

lemma GetBlock_zero_size:
  "snd (entry r (BlockId bid)) = 0 \<Longrightarrow> GetBlock r bid \<noteq> Returns (Some b)"
  using rawGetBlock_zero_size[of r bid b]
  by (auto simp: GetBlock_def split: outcome.splits if_splits)

lemma Blocks_loop_sound:
  "Blocks_loop r i mx acc = Returns bs \<Longrightarrow>
   (\<forall>b \<in> set acc. GetBlock r (Id b) = Returns (Some b)) \<Longrightarrow>
   (\<forall>b \<in> set bs. GetBlock r (Id b) = Returns (Some b))"
proof (induction r i mx acc rule: Blocks_loop.induct)
  case (1 r i mx entries)
  show ?case
  proof (cases "i < mx")
    case False
    with 1(3,4) show ?thesis by (simp add: Blocks_loop.simps[of r i mx entries])
  next
    case True
    show ?thesis
    proof (cases "GetBlock r i")
      case (Panics p)
      with True 1(3) show ?thesis by (simp add: Blocks_loop.simps[of r i mx entries])
    next
      case (Fails e)
      with True 1(3) show ?thesis by (simp add: Blocks_loop.simps[of r i mx entries])
    next
      case (Returns ob)
      show ?thesis
      proof (cases ob)
        case None
        have "Blocks_loop r (i + 1) mx entries = Returns bs"
          using 1(3) True Returns None by (simp add: Blocks_loop.simps[of r i mx entries])
        then show ?thesis
          using 1(1)[OF True Returns None] 1(4) by simp
      next
        case (Some b)
        have g: "GetBlock r (Id b) = Returns (Some b)"
          using GetBlock_Id[of r i b] Returns Some by simp
        have "Blocks_loop r (i + 1) mx (entries @ [b]) = Returns bs"
          using 1(3) True Returns Some by (simp add: Blocks_loop.simps[of r i mx entries])
        then show ?thesis
          using 1(2)[OF True Returns Some] 1(4) g by simp
      qed
    qed
  qed
qed

lemma Blocks_sound:
  "Blocks r = Returns bs \<Longrightarrow> b \<in> set bs \<Longrightarrow> GetBlock r (Id b) = Returns (Some b)"
  using Blocks_loop_sound[of r _ _ "[]" bs]
  by (auto simp: Blocks_def split: outcome.splits if_splits)

lemma region_ok_Available:
  assumes "region_ok r"
  shows "Available r = Returns (dlen r - getFreePointer r - 8 - 16 * nextId r)"
proof -
  have c: "32 \<le> getFreePointer r" "0 \<le> nextId r" "nextId r \<le> 65535" "is_i64 (dlen r)"
    "getFreePointer r + 16 * nextId r \<le> dlen r + 8"
    using assms by (simp_all add: region_ok_def)
  have "i64 (dlen r - getFreePointer r - 8 - nextId r * 16) = dlen r - getFreePointer r - 8 - nextId r * 16"
    using c by (intro i64_id) (simp_all add: is_i64_def)
  then show ?thesis
    using Available_eq[of r] c by simp
qed

subsection \<open>The writes of \<open>Allocate\<close>, one by one\<close>

text \<open>
  The four states that a successful \<open>Allocate\<close> goes through, for every value of the
  stored id counter that \<open>NewBlockId\<close> accepts (up to \<open>0xfffff\<close>): the block index it
  uses is the counter modulo 65536, the first write puts the offset into the entry of that
  index and leaves the size there as it was, and the last write sets the counter to that
  index plus one.
\<close>

lemma Allocate_steps:
  assumes fp: "32 \<le> getFreePointer r"
    and c: "nextId r \<le> 1048575"
    and n: "is_i64 (dlen r)"
    and sz: "0 \<le> sz" "sz \<le> dlen r - getFreePointer r - 8 - 16 * (nextId r mod 65536)"
  shows "\<exists>r0 r1 r2 r3.
          Allocate_writes r sz = [r0, r1, r2, r3]
        \<and> Allocate r sz =
            (Returns (if sz = 0 then None
                      else Some \<lparr>Id = regionBase (rid r) + nextId r mod 65536,
                                 Bytes = (getFreePointer r, getFreePointer r + sz),
                                 Size = sz, Offset = getFreePointer r\<rparr>), r3)
        \<and> (\<forall>s \<in> {r0, r1, r2, r3}. rid s = rid r \<and> dlen s = dlen r
              \<and> (\<forall>k. 0 \<le> k \<and> k < nextId r mod 65536 \<longrightarrow> entry s k = entry r k))
        \<and> nextId r0 = nextId r \<and> nextId r1 = nextId r \<and> nextId r2 = nextId r
        \<and> nextId r3 = nextId r mod 65536 + 1
        \<and> getFreePointer r0 = getFreePointer r \<and> getFreePointer r1 = getFreePointer r
        \<and> getFreePointer r2 = getFreePointer r + sz \<and> getFreePointer r3 = getFreePointer r + sz
        \<and> entry r0 (nextId r mod 65536) = (getFreePointer r, snd (entry r (nextId r mod 65536)))
        \<and> entry r1 (nextId r mod 65536) = (getFreePointer r, sz)
        \<and> entry r2 (nextId r mod 65536) = (getFreePointer r, sz)
        \<and> entry r3 (nextId r mod 65536) = (getFreePointer r, sz)"
proof -
  define fp where "fp = getFreePointer r"
  define c where "c = nextId r"
  define k where "k = c mod 65536"
  define n where "n = dlen r"
  define j where "j = slot r k"
  have fp_i64: "is_i64 fp" by (simp add: fp_def getFreePointer_def is_i64_get64)
  have k: "0 \<le> k" "k \<le> 65535" by (simp_all add: k_def)
  have km: "k mod 65536 = k" by (simp add: k_def)
  have bounds: "32 \<le> fp" "c \<le> 1048575" "sz \<le> n - fp - 8 - 16 * k" "0 \<le> sz"
    using assms by (simp_all add: fp_def c_def n_def k_def)
  have n64: "- (2 ^ 63) \<le> n" "n < 2 ^ 63" using n by (simp_all add: n_def is_i64_def)
  have "i64 (n - fp - 8 - k * 16) = n - fp - 8 - k * 16"
    using bounds n64 k by (intro i64_id) simp_all
  then have av: "Available r = Returns (n - fp - 8 - k * 16)"
    using bounds Available_eq[of r]
    by (simp add: fp_def[symmetric] c_def[symmetric] n_def[symmetric] k_def[symmetric])
  have nx: "getNextFreeBlockId r = Returns (regionBase (rid r) + k)"
    using bounds getNextFreeBlockId_eq[of r] by (simp add: c_def[symmetric] k_def)
  have bk: "BlockId (regionBase (rid r) + k) = k"
    using k by (simp add: BlockId_base_id)
  have j: "16 \<le> j" "j + 16 \<le> n - 8" "24 \<le> n"
    using bounds k by (simp_all add: j_def slot_eq n_def)
  have slot: "getBlockListEntryBytes r (regionBase (rid r) + k) = Returns j"
    using j getBlockListEntryBytes_slot[of r "regionBase (rid r) + k"] by (simp add: bk j_def)
  define r0 where "r0 = r\<lparr>d := put64 (d r) j fp\<rparr>"
  define r1 where "r1 = r0\<lparr>d := put64 (d r0) (j + 8) sz\<rparr>"
  define r2 where "r2 = setFreePointer r1 (fp + sz)"
  define r3 where "r3 = r2\<lparr>d := put64 (d r2) (n - 8) (k + 1)\<rparr>"
  have d0: "d r0 = put64 (d r) j fp" "dlen r0 = n" "rid r0 = rid r"
    by (simp_all add: r0_def n_def)
  have d1: "d r1 = put64 (d r0) (j + 8) sz" "dlen r1 = n" "rid r1 = rid r"
    by (simp_all add: r1_def d0)
  have d2: "d r2 = put64 (d r1) 8 (fp + sz)" "dlen r2 = n" "rid r2 = rid r"
    by (simp_all add: r2_def setFreePointer_def d1 consts_defs)
  have d3: "d r3 = put64 (d r2) (n - 8) (k + 1)" "dlen r3 = n" "rid r3 = rid r"
    by (simp_all add: r3_def d2)
  have sl: "slot r0 = slot r" "slot r1 = slot r" "slot r2 = slot r" "slot r3 = slot r"
    by (simp_all add: slot_def d0 d1 d2 d3 n_def fun_eq_iff)
  have r1': "r1 = r\<lparr>d := put64 (put64 (d r) j fp) (j + 8) sz\<rparr>"
    by (simp add: r1_def r0_def)
  have set1: "setBlockListEntry r (regionBase (rid r) + k) fp sz = Returns r1"
    by (simp add: setBlockListEntry_def slot r1')
  have slot1: "getBlockListEntryBytes r1 (regionBase (rid r) + k) = Returns j"
    using j getBlockListEntryBytes_slot[of r1 "regionBase (rid r) + k"] by (simp add: bk sl j_def)
  have sz64: "is_i64 sz" using bounds n64 k by (simp add: is_i64_def)
  have sum64: "i64 (fp + sz) = fp + sz" using bounds n64 k by (intro i64_id) simp_all
  have raw: "rawGetBlock r1 (regionBase (rid r) + k) =
       Returns (if sz = 0 then None
                else Some \<lparr>Id = regionBase (rid r) + k, Bytes = (fp, fp + sz), Size = sz, Offset = fp\<rparr>)"
    using bounds fp_i64 sz64 k
    by (simp add: rawGetBlock_def slot1 Let_def d1 d0 get64_put64_same get64_put64_below
        i64_is_i64 sum64)
  have n0: "nextId r0 = c"
    using j by (simp add: nextId_def d0 get64_put64_above c_def n_def[symmetric])
  have n1: "nextId r1 = c"
    using j n0 by (simp add: nextId_def d1 d0 get64_put64_above)
  have n2: "nextId r2 = c"
    using j n1 by (simp add: nextId_def d2 d1 d0 get64_put64_above)
  have inc: "incrementFreeBlockId r2 = (Returns (regionBase (rid r) + k), r3)"
    using bounds getNextFreeBlockId_eq[of r2]
    by (simp add: incrementFreeBlockId_def n2 d2 k_def[symmetric] bk r3_def)
  have alloc: "Allocate r sz = (Returns (if sz = 0 then None
                else Some \<lparr>Id = regionBase (rid r) + k, Bytes = (fp, fp + sz), Size = sz, Offset = fp\<rparr>), r3)"
    using bounds k
    by (simp add: Allocate_def av nx set1 raw Size_r_def n_def[symmetric] fp_def[symmetric]
        sum64 r2_def[symmetric] inc Let_def)
  have r2': "setFreePointer (r\<lparr>d := put64 (put64 (d r) j fp) (j + 8) sz\<rparr>) (fp + sz) = r2"
    by (simp add: r2_def r1')
  have writes: "Allocate_writes r sz = [r0, r1, r2, r3]"
    by (simp add: Allocate_writes_def nx slot fp_def[symmetric] Let_def sum64 r2' inc)
      (simp add: r0_def r1')
  have k1: "is_i64 (k + 1)" using k by (simp add: is_i64_def)
  have n3: "nextId r3 = k + 1"
    using k1 by (simp add: nextId_def d3 get64_put64_same i64_is_i64)
  have f0: "getFreePointer r0 = fp"
    using j by (simp add: getFreePointer_def d0 consts_defs get64_put64_below fp_def)
  have f1: "getFreePointer r1 = fp"
    using j f0 by (simp add: getFreePointer_def d1 consts_defs get64_put64_below)
  have f2: "getFreePointer r2 = fp + sz"
    using sum64 by (simp add: getFreePointer_def d2 consts_defs get64_put64_same)
  have f3: "getFreePointer r3 = fp + sz"
    using j f2 by (simp add: getFreePointer_def d3 consts_defs get64_put64_below)
  have e0: "entry r0 k = (fp, snd (entry r k))"
    using fp_i64
    by (simp add: entry_def sl j_def[symmetric] d0 get64_put64_same get64_put64_above i64_is_i64)
  have e1: "entry r1 k = (fp, sz)"
    using fp_i64 sz64
    by (simp add: entry_def sl j_def[symmetric] d1 d0 get64_put64_same get64_put64_below i64_is_i64)
  have e2: "entry r2 k = (fp, sz)"
    using e1 j by (simp add: entry_def sl j_def[symmetric] d2 get64_put64_above)
  have e3: "entry r3 k = (fp, sz)"
    using e2 j by (simp add: entry_def sl j_def[symmetric] d3 get64_put64_below)
  have fr0: "entry r0 k' = entry r k'" if "0 \<le> k'" "k' < k" for k'
  proof -
    have "j + 16 \<le> slot r k'" using that by (simp add: j_def slot_eq)
    then show ?thesis by (simp add: entry_def sl d0 get64_put64_above)
  qed
  have fr1: "entry r1 k' = entry r k'" if "0 \<le> k'" "k' < k" for k'
  proof -
    have "j + 16 \<le> slot r k'" using that by (simp add: j_def slot_eq)
    then have "entry r1 k' = entry r0 k'" by (simp add: entry_def sl d1 get64_put64_above)
    then show ?thesis using fr0 that by simp
  qed
  have fr2: "entry r2 k' = entry r k'" if "0 \<le> k'" "k' < k" for k'
  proof -
    have "j + 16 \<le> slot r k'" using that by (simp add: j_def slot_eq)
    then have "entry r2 k' = entry r1 k'" using j by (simp add: entry_def sl d2 get64_put64_above)
    then show ?thesis using fr1 that by simp
  qed
  have fr3: "entry r3 k' = entry r k'" if "0 \<le> k'" "k' < k" for k'
  proof -
    have "slot r k' + 16 \<le> n - 8" using that by (simp add: slot_eq n_def)
    then have "entry r3 k' = entry r2 k'" by (simp add: entry_def sl d3 get64_put64_below)
    then show ?thesis using fr2 that by simp
  qed
  have frames: "\<forall>s \<in> {r0, r1, r2, r3}. rid s = rid r \<and> dlen s = dlen r
              \<and> (\<forall>k'. 0 \<le> k' \<and> k' < k \<longrightarrow> entry s k' = entry r k')"
    using fr0 fr1 fr2 fr3 by (simp add: d0 d1 d2 d3 n_def)
  show ?thesis
    apply (rule exI[of _ r0], rule exI[of _ r1], rule exI[of _ r2], rule exI[of _ r3])
    using writes alloc frames n0 n1 n2 n3 f0 f1 f2 f3 e0 e1 e2 e3
    unfolding fp_def c_def k_def
    apply (intro conjI)
    apply assumption+
    done
qed

subsection \<open>Sequences of allocations\<close>

lemma Allocate_seq_Cons:
  "fst (Allocate_seq r (sz # szs)) = fst (Allocate r sz) # fst (Allocate_seq (snd (Allocate r sz)) szs)"
  "snd (Allocate_seq r (sz # szs)) = snd (Allocate_seq (snd (Allocate r sz)) szs)"
  by (simp_all split: prod.splits)

declare Allocate_seq.simps(2) [simp del]


lemma length_Allocate_seq: "length (fst (Allocate_seq r szs)) = length szs"
  by (induction szs arbitrary: r) (simp_all add: Allocate_seq_Cons)

text \<open>A sequence of requests fits a region: the data and the entries it adds leave the last
  entry at or after the end of the data.\<close>

lemma Allocate_seq_fits:
  assumes "is_i64 (dlen r)" "32 \<le> getFreePointer r" "0 \<le> nextId r"
    and "nextId r + int (length szs) \<le> 65536"
    and "\<forall>sz \<in> set szs. 0 \<le> sz"
    and "getFreePointer r + sum_list szs + 16 * (nextId r + int (length szs)) \<le> dlen r + 8"
  shows "(\<forall>i < length szs.
            fst (Allocate_seq r szs) ! i =
              Returns (if szs ! i = 0 then None
                       else Some \<lparr>Id = regionBase (rid r) + (nextId r + int i),
                                  Bytes = (getFreePointer r + sum_list (take i szs),
                                           getFreePointer r + sum_list (take i szs) + szs ! i),
                                  Size = szs ! i,
                                  Offset = getFreePointer r + sum_list (take i szs)\<rparr>))
       \<and> rid (snd (Allocate_seq r szs)) = rid r
       \<and> dlen (snd (Allocate_seq r szs)) = dlen r
       \<and> nextId (snd (Allocate_seq r szs)) = nextId r + int (length szs)
       \<and> getFreePointer (snd (Allocate_seq r szs)) = getFreePointer r + sum_list szs"
  using assms
proof (induction szs arbitrary: r)
  case Nil
  show ?case by simp
next
  case (Cons sz szs)
  let ?r' = "snd (Allocate r sz)"
  have s0: "0 \<le> sz" and rest: "\<forall>x \<in> set szs. 0 \<le> x" using Cons.prems(5) by simp_all
  have sum0: "0 \<le> sum_list szs" using rest by (simp add: sum_list_nonneg)
  have c: "nextId r \<le> 65535" using Cons.prems(4) by simp
  have ok: "region_ok r"
    using Cons.prems c s0 sum0 by (simp add: region_ok_def)
  have fit0: "sz \<le> dlen r - getFreePointer r - 8 - 16 * nextId r"
    using Cons.prems(6) sum0 by simp
  note al = Allocate_ok_snd[OF ok s0 fit0]
  have ih: "(\<forall>i < length szs.
            fst (Allocate_seq ?r' szs) ! i =
              Returns (if szs ! i = 0 then None
                       else Some \<lparr>Id = regionBase (rid ?r') + (nextId ?r' + int i),
                                  Bytes = (getFreePointer ?r' + sum_list (take i szs),
                                           getFreePointer ?r' + sum_list (take i szs) + szs ! i),
                                  Size = szs ! i,
                                  Offset = getFreePointer ?r' + sum_list (take i szs)\<rparr>))
       \<and> rid (snd (Allocate_seq ?r' szs)) = rid ?r'
       \<and> dlen (snd (Allocate_seq ?r' szs)) = dlen ?r'
       \<and> nextId (snd (Allocate_seq ?r' szs)) = nextId ?r' + int (length szs)
       \<and> getFreePointer (snd (Allocate_seq ?r' szs)) = getFreePointer ?r' + sum_list szs"
    using Cons.prems s0 rest by (intro Cons.IH) (simp_all add: al)
  have elems: "fst (Allocate_seq r (sz # szs)) ! i =
              Returns (if (sz # szs) ! i = 0 then None
                       else Some \<lparr>Id = regionBase (rid r) + (nextId r + int i),
                                  Bytes = (getFreePointer r + sum_list (take i (sz # szs)),
                                           getFreePointer r + sum_list (take i (sz # szs)) + (sz # szs) ! i),
                                  Size = (sz # szs) ! i,
                                  Offset = getFreePointer r + sum_list (take i (sz # szs))\<rparr>)"
    if "i < length (sz # szs)" for i
  proof (cases i)
    case 0
    then show ?thesis by (simp add: Allocate_seq_Cons al)
  next
    case (Suc i')
    then have "i' < length szs" using that by simp
    then show ?thesis
      using ih Suc by (simp add: Allocate_seq_Cons al add.assoc)
  qed
  show ?case
    using elems ih by (simp add: Allocate_seq_Cons al add.assoc)
qed


lemma Allocate_seq_fits_no_OutOfMemory:
  assumes "is_i64 (dlen r)" "32 \<le> getFreePointer r" "0 \<le> nextId r"
    and "nextId r + int (length szs) \<le> 65536"
    and "\<forall>sz \<in> set szs. 0 \<le> sz"
    and "getFreePointer r + sum_list szs + 16 * (nextId r + int (length szs)) \<le> dlen r + 8"
  shows "Fails OutOfMemory \<notin> set (fst (Allocate_seq r szs))"
proof
  assume "Fails OutOfMemory \<in> set (fst (Allocate_seq r szs))"
  then obtain i where i: "i < length szs" "fst (Allocate_seq r szs) ! i = Fails OutOfMemory"
    by (auto simp: in_set_conv_nth length_Allocate_seq)
  then show False
    using Allocate_seq_fits[OF assms] by auto
qed

lemma Allocate_seq_entries:
  assumes "is_i64 (dlen r)" "32 \<le> getFreePointer r" "0 \<le> nextId r"
    and "nextId r + int (length szs) \<le> 65536"
    and "\<forall>sz \<in> set szs. 0 \<le> sz"
    and "getFreePointer r + sum_list szs + 16 * (nextId r + int (length szs)) \<le> dlen r + 8"
    and "0 \<le> k" "k < nextId r"
  shows "entry (snd (Allocate_seq r szs)) k = entry r k"
  using assms
proof (induction szs arbitrary: r)
  case Nil
  show ?case by simp
next
  case (Cons sz szs)
  let ?r' = "snd (Allocate r sz)"
  have s0: "0 \<le> sz" and rest: "\<forall>x \<in> set szs. 0 \<le> x" using Cons.prems(5) by simp_all
  have sum0: "0 \<le> sum_list szs" using rest by (simp add: sum_list_nonneg)
  have c: "nextId r \<le> 65535" using Cons.prems(4) by simp
  have ok: "region_ok r"
    using Cons.prems c s0 sum0 by (simp add: region_ok_def)
  have fit0: "sz \<le> dlen r - getFreePointer r - 8 - 16 * nextId r"
    using Cons.prems(6) sum0 by simp
  note al = Allocate_ok_snd[OF ok s0 fit0]
  have "entry (snd (Allocate_seq ?r' szs)) k = entry ?r' k"
    using Cons.prems s0 rest by (intro Cons.IH) (simp_all add: al)
  then show ?case
    using al(7)[OF Cons.prems(7,8)] by (simp add: Allocate_seq_Cons)
qed

text \<open>A new region of 2 MiB after 65536 allocations of one byte.\<close>

lemma Allocate_seq_65536:
  "Fails OutOfMemory \<notin> set (fst (Allocate_seq (new_region 0 2097152) (replicate 65536 1)))"
  "fst (Allocate_seq (new_region 0 2097152) (replicate 65536 1)) ! 0
     = Returns (Some \<lparr>Id = 0, Bytes = (32, 33), Size = 1, Offset = 32\<rparr>)"
  "rid (snd (Allocate_seq (new_region 0 2097152) (replicate 65536 1))) = 0"
  "dlen (snd (Allocate_seq (new_region 0 2097152) (replicate 65536 1))) = 2097152"
  "nextId (snd (Allocate_seq (new_region 0 2097152) (replicate 65536 1))) = 65536"
  "getFreePointer (snd (Allocate_seq (new_region 0 2097152) (replicate 65536 1))) = 65568"
  "entry (snd (Allocate_seq (new_region 0 2097152) (replicate 65536 1))) 0 = (32, 1)"
proof -
  let ?q = "new_region 0 2097152"
  let ?ones = "replicate 65536 (1::int)"
  have wq: "is_i64 (dlen ?q)" "32 \<le> getFreePointer ?q" "0 \<le> nextId ?q"
    by (simp_all add: new_region_fp new_region_nextId is_i64_def)
  have f: "(\<forall>i < length ?ones.
            fst (Allocate_seq ?q ?ones) ! i =
              Returns (if ?ones ! i = 0 then None
                       else Some \<lparr>Id = regionBase (rid ?q) + (nextId ?q + int i),
                                  Bytes = (getFreePointer ?q + sum_list (take i ?ones),
                                           getFreePointer ?q + sum_list (take i ?ones) + ?ones ! i),
                                  Size = ?ones ! i,
                                  Offset = getFreePointer ?q + sum_list (take i ?ones)\<rparr>))
       \<and> rid (snd (Allocate_seq ?q ?ones)) = rid ?q
       \<and> dlen (snd (Allocate_seq ?q ?ones)) = dlen ?q
       \<and> nextId (snd (Allocate_seq ?q ?ones)) = nextId ?q + int (length ?ones)
       \<and> getFreePointer (snd (Allocate_seq ?q ?ones)) = getFreePointer ?q + sum_list ?ones"
    by (rule Allocate_seq_fits[OF wq])
      (simp_all add: new_region_fp new_region_nextId sum_list_replicate)
  show "Fails OutOfMemory \<notin> set (fst (Allocate_seq ?q ?ones))"
    by (rule Allocate_seq_fits_no_OutOfMemory[OF wq])
      (simp_all add: new_region_fp new_region_nextId sum_list_replicate)
  show "fst (Allocate_seq ?q ?ones) ! 0
        = Returns (Some \<lparr>Id = 0, Bytes = (32, 33), Size = 1, Offset = 32\<rparr>)"
    using conjunct1[OF f, THEN spec, of 0] by (simp add: new_region_fp new_region_nextId)
  show "rid (snd (Allocate_seq ?q ?ones)) = 0" "dlen (snd (Allocate_seq ?q ?ones)) = 2097152"
    "nextId (snd (Allocate_seq ?q ?ones)) = 65536" "getFreePointer (snd (Allocate_seq ?q ?ones)) = 65568"
    using f by (simp_all add: new_region_fp new_region_nextId sum_list_replicate)
  have ok: "region_ok ?q" by (simp add: new_region_ok is_i64_def)
  note a = Allocate_ok_snd[OF ok, of 1, simplified new_region_fp new_region_nextId new_region_fields]
  let ?q1 = "snd (Allocate ?q 1)"
  have q1: "dlen ?q1 = 2097152" "getFreePointer ?q1 = 33" "nextId ?q1 = 1" "entry ?q1 0 = (32, 1)"
    using a by (simp_all add: new_region_fp new_region_nextId)
  have sp: "?ones = 1 # replicate 65535 1"
    by (simp flip: replicate_Suc)
  have "entry (snd (Allocate_seq ?q1 (replicate 65535 1))) 0 = entry ?q1 0"
    by (rule Allocate_seq_entries) (simp_all add: q1 is_i64_def sum_list_replicate)
  then show "entry (snd (Allocate_seq ?q ?ones)) 0 = (32, 1)"
    by (simp add: sp Allocate_seq_Cons q1 del: replicate.simps)
qed

lemma region_after_65536:
  "rid region_after_65536 = 0" "dlen region_after_65536 = 2097152"
  "nextId region_after_65536 = 65536" "getFreePointer region_after_65536 = 65568"
  "entry region_after_65536 0 = (32, 1)"
  unfolding region_after_65536_def by (rule Allocate_seq_65536)+

text \<open>
  \<open>Allocate\<close> in that region: the block index is 0 again, the entry of block index 0 is
  overwritten and the counter becomes 1.
\<close>

lemma region_after_65536_steps:
  assumes "0 \<le> sz" "sz \<le> 2031576"
  shows "\<exists>r0 r1 r2 r3.
       Allocate_writes region_after_65536 sz = [r0, r1, r2, r3]
     \<and> Allocate region_after_65536 sz =
          (Returns (if sz = 0 then None
                    else Some \<lparr>Id = 0, Bytes = (65568, 65568 + sz), Size = sz, Offset = 65568\<rparr>), r3)
     \<and> rid r3 = 0 \<and> dlen r3 = 2097152
     \<and> nextId r0 = 65536 \<and> nextId r1 = 65536 \<and> nextId r2 = 65536 \<and> nextId r3 = 1
     \<and> getFreePointer r0 = 65568 \<and> getFreePointer r1 = 65568
     \<and> getFreePointer r2 = 65568 + sz \<and> getFreePointer r3 = 65568 + sz
     \<and> entry r0 0 = (65568, 1) \<and> entry r1 0 = (65568, sz)
     \<and> entry r2 0 = (65568, sz) \<and> entry r3 0 = (65568, sz)"
proof -
  let ?q = region_after_65536
  have pre: "32 \<le> getFreePointer ?q" "nextId ?q \<le> 1048575" "is_i64 (dlen ?q)" "0 \<le> sz"
    "sz \<le> dlen ?q - getFreePointer ?q - 8 - 16 * (nextId ?q mod 65536)"
    using assms by (simp_all add: region_after_65536 is_i64_def)
  obtain r0 r1 r2 r3 where st:
    "Allocate_writes ?q sz = [r0, r1, r2, r3]"
    "Allocate ?q sz = (Returns (if sz = 0 then None
          else Some \<lparr>Id = regionBase (rid ?q) + nextId ?q mod 65536,
                     Bytes = (getFreePointer ?q, getFreePointer ?q + sz), Size = sz,
                     Offset = getFreePointer ?q\<rparr>), r3)"
    "\<forall>s \<in> {r0, r1, r2, r3}. rid s = rid ?q \<and> dlen s = dlen ?q
         \<and> (\<forall>k. 0 \<le> k \<and> k < nextId ?q mod 65536 \<longrightarrow> entry s k = entry ?q k)"
    "nextId r0 = nextId ?q" "nextId r1 = nextId ?q" "nextId r2 = nextId ?q"
    "nextId r3 = nextId ?q mod 65536 + 1"
    "getFreePointer r0 = getFreePointer ?q" "getFreePointer r1 = getFreePointer ?q"
    "getFreePointer r2 = getFreePointer ?q + sz" "getFreePointer r3 = getFreePointer ?q + sz"
    "entry r0 (nextId ?q mod 65536) = (getFreePointer ?q, snd (entry ?q (nextId ?q mod 65536)))"
    "entry r1 (nextId ?q mod 65536) = (getFreePointer ?q, sz)"
    "entry r2 (nextId ?q mod 65536) = (getFreePointer ?q, sz)"
    "entry r3 (nextId ?q mod 65536) = (getFreePointer ?q, sz)"
    using Allocate_steps[OF pre] by (elim exE conjE) (rule that, assumption+)
  have f3: "rid r3 = 0" "dlen r3 = 2097152"
    using st(3) by (simp_all add: region_after_65536)
  have m: "nextId ?q mod 65536 = 0" by (simp add: region_after_65536)
  note st' = st(2,4-15)[unfolded m, unfolded region_after_65536, simplified]
  show ?thesis
    apply (rule exI[of _ r0], rule exI[of _ r1], rule exI[of _ r2], rule exI[of _ r3])
    using st(1) st' f3 by (simp cong: if_cong)
qed

text \<open>
  \<open>Blocks\<close> on a region whose index is \<open>2 ^ 31\<close>: the capacity asked of \<open>make\<close> is the
  \<open>BlockId\<close> \<open>2 ^ 47\<close>.
\<close>

lemma Blocks_cap_out_of_range:
  "Blocks (new_region (2 ^ 31) 1048576) = Panics MakeSliceCap"
proof -
  have "regionBase (2 ^ 31) = 2 ^ 47"
    by (simp add: regionBase_def i64_def)
  then show ?thesis
    using getNextFreeBlockId_eq[of "new_region (2 ^ 31) 1048576"]
    by (simp add: Blocks_def new_region_nextId maxAlloc_def)
qed

lemma OpenForUpdate_eq:
  assumes "1 \<le> mb" "mb < 2 ^ 43"
  shows "OpenForUpdate mb = Returns \<lparr>regions = [new_region 0 (mb * 1048576)]\<rparr>"
proof -
  have "i64 (mb * 1024 * 1024) = mb * 1048576"
    using assms by (intro i64_id[THEN trans]) simp_all
  moreover have "is_i64 (mb * 1048576)" "16 \<le> mb * 1048576"
    using assms by (simp_all add: is_i64_def)
  ultimately show ?thesis
    by (simp add: OpenForUpdate_def appendRegion_new is_i64_def)
qed





subsection \<open>What a reader sees during \<open>Allocate\<close>\<close>

text \<open>
  \<open>GetBlock\<close> and \<open>Blocks\<close> depend on the region index, the length, the id counter and the
  entries below the counter only.
\<close>

lemma rawGetBlock_cong:
  assumes "dlen s = dlen r" "entry s (BlockId bid) = entry r (BlockId bid)"
  shows "rawGetBlock s bid = rawGetBlock r bid"
proof -
  have j: "dlen r - 8 - 16 * BlockId bid - 16 = slot r (BlockId bid)"
    by (simp add: slot_eq)
  have sl: "slot s (BlockId bid) = slot r (BlockId bid)"
    using assms(1) by (simp add: slot_def)
  have e: "get64 (d s) (slot r (BlockId bid)) = get64 (d r) (slot r (BlockId bid))"
    "get64 (d s) (slot r (BlockId bid) + 8) = get64 (d r) (slot r (BlockId bid) + 8)"
    using assms(2) by (simp_all add: entry_def sl)
  show ?thesis
    by (simp add: rawGetBlock_def getBlockListEntryBytes_def consts_defs Let_def assms(1) j e)
qed

lemma BlockId_in_range:
  assumes "regionBase rg \<le> bid" "bid < regionBase rg + k" "k \<le> 65536"
  shows "BlockId bid = bid - regionBase rg" "0 \<le> bid - regionBase rg" "bid - regionBase rg < k"
proof -
  have "BlockId (regionBase rg + (bid - regionBase rg)) = bid - regionBase rg"
    using assms by (intro BlockId_base_id) simp_all
  then show "BlockId bid = bid - regionBase rg" by simp
  show "0 \<le> bid - regionBase rg" "bid - regionBase rg < k" using assms by simp_all
qed

lemma GetBlock_cong:
  assumes "rid s = rid r" "dlen s = dlen r" "nextId s = nextId r" "nextId r \<le> 1048575"
    and "\<forall>k. 0 \<le> k \<and> k < nextId r mod 65536 \<longrightarrow> entry s k = entry r k"
  shows "GetBlock s bid = GetBlock r bid"
proof (cases "bid < regionBase (rid r) \<or> regionBase (rid r) + nextId r mod 65536 \<le> bid")
  case True
  then show ?thesis
    using assms(1,3,4) by (simp add: GetBlock_eq)
next
  case False
  have k: "nextId r mod 65536 \<le> 65536" by simp
  have "entry s (BlockId bid) = entry r (BlockId bid)"
    using BlockId_in_range[of "rid r" bid "nextId r mod 65536"] False assms(5) by simp
  then have "rawGetBlock s bid = rawGetBlock r bid"
    using assms(2) by (intro rawGetBlock_cong)
  then show ?thesis
    using False assms(1,3,4) by (simp add: GetBlock_eq)
qed

lemma Blocks_loop_cong:
  "(\<And>bid. GetBlock s bid = GetBlock r bid) \<Longrightarrow> Blocks_loop s i mx acc = Blocks_loop r i mx acc"
proof (induction r i mx acc rule: Blocks_loop.induct)
  case (1 r i mx entries)
  have g: "GetBlock s i = GetBlock r i" using 1(3) .
  show ?case
  proof (cases "i < mx")
    case False
    then show ?thesis
      by (simp add: Blocks_loop.simps[of s i mx entries] Blocks_loop.simps[of r i mx entries])
  next
    case True
    show ?thesis
    proof (cases "GetBlock r i")
      case (Panics p)
      then show ?thesis
        using True g
        by (simp add: Blocks_loop.simps[of s i mx entries] Blocks_loop.simps[of r i mx entries])
    next
      case (Fails e)
      then show ?thesis
        using True g
        by (simp add: Blocks_loop.simps[of s i mx entries] Blocks_loop.simps[of r i mx entries])
    next
      case (Returns ob)
      show ?thesis
      proof (cases ob)
        case None
        have "Blocks_loop s (i + 1) mx entries = Blocks_loop r (i + 1) mx entries"
          using 1(1)[OF True Returns None] 1(3) by simp
        then show ?thesis
          using True g Returns None
          by (simp add: Blocks_loop.simps[of s i mx entries] Blocks_loop.simps[of r i mx entries])
      next
        case (Some b)
        have "Blocks_loop s (i + 1) mx (entries @ [b]) = Blocks_loop r (i + 1) mx (entries @ [b])"
          using 1(2)[OF True Returns Some] 1(3) by simp
        then show ?thesis
          using True g Returns Some
          by (simp add: Blocks_loop.simps[of s i mx entries] Blocks_loop.simps[of r i mx entries])
      qed
    qed
  qed
qed

lemma Blocks_cong:
  assumes "\<And>bid. GetBlock s bid = GetBlock r bid" "rid s = rid r" "nextId s = nextId r"
  shows "Blocks s = Blocks r"
proof -
  have "getNextFreeBlockId s = getNextFreeBlockId r"
    using assms(2,3) by (simp add: getNextFreeBlockId_def nextId_def)
  then show ?thesis
    using Blocks_loop_cong[of s r, OF assms(1)] assms(2) by (simp add: Blocks_def split: outcome.splits)
qed

lemma Allocate_negative:
  assumes "region_ok r" "is_i64 sz" "sz < 0"
  shows "fst (Allocate r sz) \<noteq> Returns b"
proof (cases "fst (Allocate r sz) = Fails OutOfMemory")
  case True
  then show ?thesis by simp
next
  case False
  define fp where "fp = getFreePointer r"
  define c where "c = nextId r"
  define j where "j = slot r c"
  have ok: "32 \<le> fp" "0 \<le> c" "c \<le> 65535" "is_i64 (dlen r)" "fp + 16 * c \<le> dlen r + 8"
    using assms(1) by (simp_all add: region_ok_def fp_def c_def)
  have fp64: "is_i64 fp" by (simp add: fp_def getFreePointer_def is_i64_get64)
  have av: "Available r = Returns (dlen r - fp - 8 - 16 * c)"
    using region_ok_Available[OF assms(1)] by (simp add: fp_def c_def)
  have le: "sz \<le> dlen r - fp - 8 - 16 * c"
    using False Allocate_Fails_iff[OF av, of sz OutOfMemory] by simp
  have nx: "getNextFreeBlockId r = Returns (regionBase (rid r) + c)"
    using ok getNextFreeBlockId_eq[of r] by (simp add: c_def[symmetric])
  have bk: "BlockId (regionBase (rid r) + c) = c" using ok by (simp add: BlockId_base_id)
  have j0: "0 \<le> j" using ok by (simp add: j_def slot_eq)
  have slot: "getBlockListEntryBytes r (regionBase (rid r) + c) = Returns j"
    using j0 getBlockListEntryBytes_slot[of r "regionBase (rid r) + c"] by (simp add: bk j_def)
  define r1 where "r1 = r\<lparr>d := put64 (put64 (d r) j fp) (j + 8) sz\<rparr>"
  have set1: "setBlockListEntry r (regionBase (rid r) + c) fp sz = Returns r1"
    by (simp add: setBlockListEntry_def slot r1_def)
  have d1: "d r1 = put64 (put64 (d r) j fp) (j + 8) sz" "dlen r1 = dlen r"
    by (simp_all add: r1_def)
  have slot1: "getBlockListEntryBytes r1 (regionBase (rid r) + c) = Returns j"
    using slot by (simp add: getBlockListEntryBytes_def d1)
  have "- (2 ^ 63) \<le> fp + sz" "fp + sz < 2 ^ 63"
    using ok assms(2,3) fp64 by (simp_all add: is_i64_def)
  then have sum: "i64 (fp + sz) = fp + sz" by (rule i64_id)
  have raw: "rawGetBlock r1 (regionBase (rid r) + c) = Panics SliceBounds"
    using ok assms(2,3) fp64
    by (simp add: rawGetBlock_def slot1 Let_def d1 get64_put64_same get64_put64_below i64_is_i64 sum)
  have "fst (Allocate r sz) = Panics SliceBounds"
    using le assms(3) ok
    by (simp add: Allocate_def av nx set1 raw Size_r_def fp_def[symmetric] Let_def is_i64_def)
  then show ?thesis by simp
qed

lemma Allocate_success_bounds:
  assumes "region_ok r" "is_i64 sz" "fst (Allocate r sz) = Returns b"
  shows "0 \<le> sz" "sz \<le> dlen r - getFreePointer r - 8 - 16 * nextId r"
proof -
  show "0 \<le> sz"
    using Allocate_negative[OF assms(1,2), of b] assms(3) by (cases "sz < 0") simp_all
  show "sz \<le> dlen r - getFreePointer r - 8 - 16 * nextId r"
    using Allocate_Fails_iff[OF region_ok_Available[OF assms(1)], of sz OutOfMemory] assms(3)
    by simp
qed

text \<open>
  In a region whose id counter is at most 65535, a successful \<open>Allocate\<close> writes the entry
  of the counter's index first (the offset, then the size), then the free pointer, then
  the counter, which it increments. After each of the first three writes \<open>GetBlock\<close> and
  \<open>Blocks\<close> return what they returned before the call; after the last one \<open>GetBlock\<close>
  returns the blocks it returned before and, under the new id, the block that \<open>Allocate\<close>
  returns.
\<close>

lemma Allocate_write_order:
  assumes "region_ok r" "is_i64 sz" "fst (Allocate r sz) = Returns b"
  shows "\<exists>r0 r1 r2 r3.
       Allocate_writes r sz = [r0, r1, r2, r3] \<and> snd (Allocate r sz) = r3
     \<and> fst (entry r0 (nextId r)) = getFreePointer r
     \<and> getFreePointer r0 = getFreePointer r \<and> nextId r0 = nextId r
     \<and> entry r1 (nextId r) = (getFreePointer r, sz)
     \<and> getFreePointer r1 = getFreePointer r \<and> nextId r1 = nextId r
     \<and> entry r2 (nextId r) = (getFreePointer r, sz)
     \<and> getFreePointer r2 = getFreePointer r + sz \<and> nextId r2 = nextId r
     \<and> entry r3 (nextId r) = (getFreePointer r, sz)
     \<and> getFreePointer r3 = getFreePointer r + sz \<and> nextId r3 = nextId r + 1
     \<and> (\<forall>s \<in> {r0, r1, r2}. (\<forall>bid. GetBlock s bid = GetBlock r bid) \<and> Blocks s = Blocks r)
     \<and> (\<forall>bid blk. GetBlock r3 bid = Returns (Some blk)
            \<longrightarrow> (bid = regionBase (rid r) + nextId r \<and> b = Some blk)
                \<or> GetBlock r bid = Returns (Some blk))
     \<and> (nextId r < 65535
            \<longrightarrow> GetBlock r3 (regionBase (rid r) + nextId r) = Returns b
              \<and> (\<forall>bid. bid \<noteq> regionBase (rid r) + nextId r \<longrightarrow> GetBlock r3 bid = GetBlock r bid))"
proof -
  define fp where "fp = getFreePointer r"
  define c where "c = nextId r"
  define rb where "rb = regionBase (rid r)"
  have ok: "32 \<le> fp" "0 \<le> c" "c \<le> 65535" "is_i64 (dlen r)" "fp + 16 * c \<le> dlen r + 8"
    using assms(1) by (simp_all add: region_ok_def fp_def c_def)
  have cm: "c mod 65536 = c" using ok by simp
  have sz: "0 \<le> sz" "sz \<le> dlen r - fp - 8 - 16 * c"
    using Allocate_success_bounds[OF assms] by (simp_all add: fp_def c_def)
  obtain r0 r1 r2 r3 where st:
    "Allocate_writes r sz = [r0, r1, r2, r3]"
    "Allocate r sz = (Returns (if sz = 0 then None
                      else Some \<lparr>Id = rb + c, Bytes = (fp, fp + sz), Size = sz, Offset = fp\<rparr>), r3)"
    "\<forall>s \<in> {r0, r1, r2, r3}. rid s = rid r \<and> dlen s = dlen r
              \<and> (\<forall>k. 0 \<le> k \<and> k < c \<longrightarrow> entry s k = entry r k)"
    "nextId r0 = c" "nextId r1 = c" "nextId r2 = c" "nextId r3 = c + 1"
    "getFreePointer r0 = fp" "getFreePointer r1 = fp" "getFreePointer r2 = fp + sz"
    "getFreePointer r3 = fp + sz"
    "entry r0 c = (fp, snd (entry r c))" "entry r1 c = (fp, sz)" "entry r2 c = (fp, sz)"
    "entry r3 c = (fp, sz)"
  proof -
    have pre: "32 \<le> getFreePointer r" "nextId r \<le> 1048575" "is_i64 (dlen r)" "0 \<le> sz"
      "sz \<le> dlen r - getFreePointer r - 8 - 16 * (nextId r mod 65536)"
      using ok sz by (simp_all add: fp_def c_def)
    show ?thesis
      using Allocate_steps[OF pre] that
      unfolding fp_def[symmetric] c_def[symmetric] rb_def[symmetric] cm
      by (elim exE conjE) (rule that, assumption+)
  qed
  have e0: "fst (entry r0 c) = fp" by (simp add: st(12))
  have b: "b = (if sz = 0 then None
                else Some \<lparr>Id = rb + c, Bytes = (fp, fp + sz), Size = sz, Offset = fp\<rparr>)"
  proof -
    have "Returns (if sz = 0 then None
                else Some \<lparr>Id = rb + c, Bytes = (fp, fp + sz), Size = sz, Offset = fp\<rparr>) = Returns b"
      using assms(3) by (simp only: st(2) fst_conv)
    then show ?thesis by (simp only: outcome.inject)
  qed
  have vis: "(\<forall>bid. GetBlock s bid = GetBlock r bid) \<and> Blocks s = Blocks r"
    if "s \<in> {r0, r1, r2}" for s
  proof -
    have m: "s \<in> {r0, r1, r2, r3}" using that by blast
    have fr: "rid s = rid r \<and> dlen s = dlen r \<and> (\<forall>k. 0 \<le> k \<and> k < c \<longrightarrow> entry s k = entry r k)"
      using st(3) m by (rule bspec)
    from that have "s = r0 \<or> s = r1 \<or> s = r2" by simp
    then have "nextId s = c" using st(4,5,6) by (elim disjE) simp_all
    then have f: "rid s = rid r" "dlen s = dlen r" "nextId s = nextId r"
      "\<forall>k. 0 \<le> k \<and> k < nextId r mod 65536 \<longrightarrow> entry s k = entry r k"
      using fr unfolding c_def[symmetric] cm by simp_all
    have g: "GetBlock s bid = GetBlock r bid" for bid
      using f ok by (intro GetBlock_cong) (simp_all add: c_def[symmetric])
    then show ?thesis
      using Blocks_cong[of s r] f by simp
  qed
  have f3: "rid r3 = rid r" "dlen r3 = dlen r"
    "\<forall>k. 0 \<le> k \<and> k < c \<longrightarrow> entry r3 k = entry r k"
    using st(3) by simp_all
  have bk: "BlockId (rb + c) = c" using ok by (simp add: rb_def BlockId_base_id)
  have s3: "0 \<le> slot r3 c" using ok sz by (simp add: slot_eq f3)
  have sum: "i64 (fp + sz) = fp + sz"
    using ok sz by (intro i64_id) (simp_all add: is_i64_def)
  have raw3: "rawGetBlock r3 (rb + c) = Returns b"
    using rawGetBlock_entry[of r3 "rb + c"] s3 ok sz
    by (simp add: bk st(15) b sum f3)
  have g_r: "GetBlock r bid = (if bid < rb \<or> rb + c \<le> bid then Returns None else rawGetBlock r bid)" for bid
    using GetBlock_eq[of r bid] ok by (simp add: c_def[symmetric] rb_def[symmetric] cm)
  have small: "GetBlock r3 bid = (if bid = rb + c then Returns b else GetBlock r bid)"
    if c: "c < 65535" for bid
  proof -
    have m: "(c + 1) mod 65536 = c + 1" using ok c by simp
    have g3: "GetBlock r3 bid = (if bid < rb \<or> rb + (c + 1) \<le> bid then Returns None else rawGetBlock r3 bid)"
      using GetBlock_eq[of r3 bid] c by (simp add: st(7) f3 rb_def[symmetric] m)
    show ?thesis
    proof (cases "rb \<le> bid \<and> bid < rb + c")
      case True
      have "entry r3 (BlockId bid) = entry r (BlockId bid)"
        using BlockId_in_range[of "rid r" bid c] True ok f3(3) by (simp add: rb_def)
      then have "rawGetBlock r3 bid = rawGetBlock r bid"
        using f3(2) by (intro rawGetBlock_cong)
      then show ?thesis using True g3 g_r[of bid] by simp
    next
      case False
      show ?thesis
      proof (cases "bid = rb + c")
        case True
        have "GetBlock r3 (rb + c) = rawGetBlock r3 (rb + c)"
          using g3 ok True by simp
        then show ?thesis using raw3 True by simp
      next
        case ne: False
        then show ?thesis using False g3 g_r[of bid] by auto
      qed
    qed
  qed
  have wrap: "GetBlock r3 bid = Returns None" if "c = 65535" for bid
  proof -
    have "nextId r3 mod 65536 = 0" using that by (simp add: st(7))
    then have "GetBlock r3 bid = (if bid < regionBase (rid r3) \<or> regionBase (rid r3) \<le> bid
        then Returns None else rawGetBlock r3 bid)"
      using GetBlock_eq[of r3 bid] that by (simp add: st(7))
    then show ?thesis by (simp add: not_less)
  qed
  have final: "(bid = rb + c \<and> b = Some blk) \<or> GetBlock r bid = Returns (Some blk)"
    if "GetBlock r3 bid = Returns (Some blk)" for bid blk
  proof (cases "c < 65535")
    case True
    then show ?thesis using small[OF True, of bid] that by (cases "bid = rb + c") simp_all
  next
    case False
    then have "c = 65535" using ok by simp
    then show ?thesis using wrap[of bid] that by simp
  qed
  have snd3: "snd (Allocate r sz) = r3" by (simp add: st(2))
  have P1: "Allocate_writes r sz = [r0, r1, r2, r3] \<and> snd (Allocate r sz) = r3
     \<and> fst (entry r0 (nextId r)) = getFreePointer r
     \<and> getFreePointer r0 = getFreePointer r \<and> nextId r0 = nextId r
     \<and> entry r1 (nextId r) = (getFreePointer r, sz)
     \<and> getFreePointer r1 = getFreePointer r \<and> nextId r1 = nextId r
     \<and> entry r2 (nextId r) = (getFreePointer r, sz)
     \<and> getFreePointer r2 = getFreePointer r + sz \<and> nextId r2 = nextId r
     \<and> entry r3 (nextId r) = (getFreePointer r, sz)
     \<and> getFreePointer r3 = getFreePointer r + sz \<and> nextId r3 = nextId r + 1"
    unfolding fp_def[symmetric] c_def[symmetric]
    using st(1) snd3 st(4-11) e0 st(13-15) by (intro conjI) assumption+
  have P2: "\<forall>s \<in> {r0, r1, r2}. (\<forall>bid. GetBlock s bid = GetBlock r bid) \<and> Blocks s = Blocks r"
    using vis by blast
  have P3: "\<forall>bid blk. GetBlock r3 bid = Returns (Some blk)
            \<longrightarrow> (bid = regionBase (rid r) + nextId r \<and> b = Some blk)
                \<or> GetBlock r bid = Returns (Some blk)"
    unfolding rb_def[symmetric] c_def[symmetric] using final by blast
  have P4: "nextId r < 65535
            \<longrightarrow> GetBlock r3 (regionBase (rid r) + nextId r) = Returns b
              \<and> (\<forall>bid. bid \<noteq> regionBase (rid r) + nextId r \<longrightarrow> GetBlock r3 bid = GetBlock r bid)"
    unfolding rb_def[symmetric] c_def[symmetric] using small by simp
  show ?thesis
    apply (rule exI[of _ r0], rule exI[of _ r1], rule exI[of _ r2], rule exI[of _ r3])
    using P1 P2 P3 P4 by (simp only: simp_thms)
qed

lemma Allocate_write_order_example:
  "region_ok (new_region 0 1048576) \<and> is_i64 1000
   \<and> fst (Allocate (new_region 0 1048576) 1000)
       = Returns (Some \<lparr>Id = 0, Bytes = (32, 1032), Size = 1000, Offset = 32\<rparr>)
   \<and> (\<exists>r0 r1 r2. Allocate_writes (new_region 0 1048576) 1000
                      = [r0, r1, r2, snd (Allocate (new_region 0 1048576) 1000)]
        \<and> fst (entry r0 0) = 32 \<and> nextId r0 = 0 \<and> GetBlock r0 0 = Returns None
        \<and> entry r1 0 = (32, 1000) \<and> getFreePointer r1 = 32 \<and> nextId r1 = 0
        \<and> GetBlock r1 0 = Returns None
        \<and> getFreePointer r2 = 1032 \<and> nextId r2 = 0 \<and> GetBlock r2 0 = Returns None
        \<and> nextId (snd (Allocate (new_region 0 1048576) 1000)) = 1
        \<and> GetBlock (snd (Allocate (new_region 0 1048576) 1000)) 0
            = Returns (Some \<lparr>Id = 0, Bytes = (32, 1032), Size = 1000, Offset = 32\<rparr>))"
proof -
  let ?r = "new_region 0 1048576"
  let ?b = "Some \<lparr>Id = 0, Bytes = (32, 1032), Size = 1000, Offset = 32\<rparr>"
  have ok: "region_ok ?r" by (simp add: new_region_ok is_i64_def)
  have i: "is_i64 1000" by (simp add: is_i64_def)
  have res: "fst (Allocate ?r 1000) = Returns ?b" by (simp add: Allocate_1000)
  have g0: "GetBlock ?r 0 = Returns None"
    using GetBlock_eq[of ?r 0] by (simp add: new_region_nextId)
  obtain r0 r1 r2 r3 where w:
    "Allocate_writes ?r 1000 = [r0, r1, r2, r3]" "snd (Allocate ?r 1000) = r3"
    "fst (entry r0 (nextId ?r)) = getFreePointer ?r" "nextId r0 = nextId ?r"
    "entry r1 (nextId ?r) = (getFreePointer ?r, 1000)"
    "getFreePointer r1 = getFreePointer ?r" "nextId r1 = nextId ?r"
    "getFreePointer r2 = getFreePointer ?r + 1000" "nextId r2 = nextId ?r"
    "nextId r3 = nextId ?r + 1"
    "\<forall>s \<in> {r0, r1, r2}. (\<forall>bid. GetBlock s bid = GetBlock ?r bid) \<and> Blocks s = Blocks ?r"
    "nextId ?r < 65535
       \<longrightarrow> GetBlock r3 (regionBase (rid ?r) + nextId ?r) = Returns ?b
         \<and> (\<forall>bid. bid \<noteq> regionBase (rid ?r) + nextId ?r \<longrightarrow> GetBlock r3 bid = GetBlock ?r bid)"
    using Allocate_write_order[OF ok i res] by (elim exE conjE) (rule that, assumption+)
  have v: "GetBlock r0 0 = Returns None" "GetBlock r1 0 = Returns None" "GetBlock r2 0 = Returns None"
    using w(11) g0 by simp_all
  have n: "GetBlock r3 0 = Returns ?b"
    using w(12) by (simp add: new_region_nextId)
  show ?thesis
    using ok i res w(1-10) v n
    by (simp add: new_region_nextId new_region_fp)
qed

text \<open>
  C4. The claim: in every successful \<open>region.allocate\<close> the block-list entry is written
  first, the free pointer is advanced second and the id counter is incremented last, so
  that at every intermediate point a reader that trusts only the entries with an index
  below the counter sees no torn or inconsistent block. The code, in the region of 2 MiB
  that 65536 allocations of one byte lead to (\<open>region_after_65536\<close>, stored counter 65536):
  \<open>Allocate(5)\<close> succeeds; its first write goes to the entry of block index 0, an index
  below the stored counter, which holds the first block \<open>(32, 1)\<close>, and leaves
  \<open>(65568, 1)\<close> there, the new offset with the old size; the counter still reads 65536
  after the second and the third write; the last write sets it to 1, it does not increment
  it; and then \<open>GetBlock\<close> returns the new block for the id 0, the id of the first block.
\<close>

theorem Allocate_write_order_wraps:
  "Fails OutOfMemory \<notin> set (fst (Allocate_seq (new_region 0 2097152) (replicate 65536 1)))
   \<and> region_after_65536 = snd (Allocate_seq (new_region 0 2097152) (replicate 65536 1))
   \<and> nextId region_after_65536 = 65536
   \<and> entry region_after_65536 0 = (32, 1)
   \<and> fst (Allocate region_after_65536 5)
       = Returns (Some \<lparr>Id = 0, Bytes = (65568, 65573), Size = 5, Offset = 65568\<rparr>)
   \<and> length (Allocate_writes region_after_65536 5) = 4
   \<and> entry (Allocate_writes region_after_65536 5 ! 0) 0 = (65568, 1)
   \<and> nextId (Allocate_writes region_after_65536 5 ! 0) = 65536
   \<and> entry (Allocate_writes region_after_65536 5 ! 1) 0 = (65568, 5)
   \<and> nextId (Allocate_writes region_after_65536 5 ! 1) = 65536
   \<and> getFreePointer (Allocate_writes region_after_65536 5 ! 2) = 65573
   \<and> nextId (Allocate_writes region_after_65536 5 ! 2) = 65536
   \<and> Allocate_writes region_after_65536 5 ! 3 = snd (Allocate region_after_65536 5)
   \<and> nextId (snd (Allocate region_after_65536 5)) = 1
   \<and> GetBlock (snd (Allocate region_after_65536 5)) 0
       = Returns (Some \<lparr>Id = 0, Bytes = (65568, 65573), Size = 5, Offset = 65568\<rparr>)"
proof -
  let ?q = region_after_65536
  let ?blk = "\<lparr>Id = 0, Bytes = (65568, 65573), Size = 5, Offset = 65568\<rparr>"
  obtain r0 r1 r2 r3 where st:
    "Allocate_writes ?q 5 = [r0, r1, r2, r3]"
    "Allocate ?q 5 = (Returns (Some ?blk), r3)"
    "rid r3 = 0" "dlen r3 = 2097152"
    "nextId r0 = 65536" "nextId r1 = 65536" "nextId r2 = 65536" "nextId r3 = 1"
    "getFreePointer r2 = 65573"
    "entry r0 0 = (65568, 1)" "entry r1 0 = (65568, 5)" "entry r3 0 = (65568, 5)"
    using region_after_65536_steps[of 5] by auto
  have "rawGetBlock r3 0 = Returns (Some ?blk)"
    using rawGetBlock_entry[of r3 0]
    by (simp add: st BlockId_def slot_eq i64_def)
  then have g: "GetBlock r3 0 = Returns (Some ?blk)"
    using GetBlock_eq[of r3 0] by (simp add: st)
  have o: "Fails OutOfMemory \<notin> set (fst (Allocate_seq (new_region 0 2097152) (replicate 65536 1)))"
    by (rule Allocate_seq_65536)
  show ?thesis
    using o st g
    by (simp add: region_after_65536 region_after_65536_def[symmetric] numeral_3_eq_3 numeral_2_eq_2)
qed

text \<open>
  C10. The claim: in a region with \<open>availableBytes() \<ge> 0\<close>, \<open>region.allocate(0)\<close>, and
  hence \<open>heap.allocate(0)\<close>, returns neither a block nor an error, yet it writes the
  block-list entry \<open>(freePointer, 0)\<close> and increments the id counter, and the slot it
  used is permanently invisible to \<open>getBlock\<close> and \<open>listBlocks\<close>. As amended: in a region
  whose length fits an \<open>int64\<close>, whose free pointer is at least 32, whose stored id
  counter is between 0 and 65535 and where \<open>Available\<close> returns a value \<open>\<ge> 0\<close>
  (\<open>region_ok\<close>), \<open>Allocate 0\<close> returns \<open>Returns None\<close> (a nil block and a nil error), writes
  the entry \<open>(getFreePointer r, 0)\<close> at the index of the counter and increments the
  counter; \<open>GetBlock\<close> returns nil for the id of that slot and no list that \<open>Blocks\<close>
  returns holds it, in the state that \<open>Allocate\<close> leaves and in every state in which the
  entry is as \<open>Allocate\<close> left it. The slot is not lost for ever: when the counter was
  below 65535, \<open>Free\<close> on the id of the slot returns true, clears the entry and sets the
  counter and the free pointer back, so that the next allocation takes the slot.
  \<open>Heap.Allocate 0\<close> returns the same from the first region of a heap.
\<close>

theorem Allocate_zero:
  assumes "region_ok r" "Available r = Returns a" "0 \<le> a"
  shows "fst (Allocate r 0) = Returns None
       \<and> entry (snd (Allocate r 0)) (nextId r) = (getFreePointer r, 0)
       \<and> nextId (snd (Allocate r 0)) = nextId r + 1
       \<and> GetBlock (snd (Allocate r 0)) (regionBase (rid r) + nextId r) = Returns None
       \<and> (\<forall>bs. Blocks (snd (Allocate r 0)) = Returns bs
              \<longrightarrow> (\<forall>b \<in> set bs. Id b \<noteq> regionBase (rid r) + nextId r))
       \<and> (\<forall>s b bs. entry s (nextId r) = entry (snd (Allocate r 0)) (nextId r)
              \<longrightarrow> GetBlock s (regionBase (rid r) + nextId r) \<noteq> Returns (Some b)
                \<and> (Blocks s = Returns bs
                     \<longrightarrow> (\<forall>x \<in> set bs. Id x \<noteq> regionBase (rid r) + nextId r)))
       \<and> (\<forall>b. nextId r < 65535 \<and> Id b = regionBase (rid r) + nextId r
              \<longrightarrow> fst (Free (snd (Allocate r 0)) b) = Returns True
                \<and> nextId (snd (Free (snd (Allocate r 0)) b)) = nextId r
                \<and> getFreePointer (snd (Free (snd (Allocate r 0)) b)) = getFreePointer r
                \<and> entry (snd (Free (snd (Allocate r 0)) b)) (nextId r) = (0, 0))
       \<and> (\<forall>n rs. Heap_Allocate (Suc n) \<lparr>regions = r # rs\<rparr> 0
              = Some (Returns None, \<lparr>regions = snd (Allocate r 0) # rs\<rparr>))"
proof -
  let ?r' = "snd (Allocate r 0)"
  let ?bid = "regionBase (rid r) + nextId r"
  have c: "32 \<le> getFreePointer r" "0 \<le> nextId r" "nextId r \<le> 65535" "is_i64 (dlen r)"
    using assms(1) by (simp_all add: region_ok_def)
  have a: "0 \<le> dlen r - getFreePointer r - 8 - 16 * nextId r"
    using assms region_ok_Available[OF assms(1)] by simp
  note al = Allocate_ok_snd[OF assms(1) _ a, simplified]
  have bk: "BlockId ?bid = nextId r" using c by (simp add: BlockId_base_id)
  have zs: "GetBlock s ?bid \<noteq> Returns (Some b)" if "entry s (nextId r) = entry ?r' (nextId r)" for s b
    using that al(6) by (intro GetBlock_zero_size) (simp add: bk)
  have zb: "Id x \<noteq> ?bid"
    if "entry s (nextId r) = entry ?r' (nextId r)" "Blocks s = Returns bs" "x \<in> set bs" for s bs x
    using Blocks_sound[OF that(2,3)] zs[OF that(1), of x] by auto
  have s: "0 \<le> slot ?r' (nextId r)"
    using a c by (simp add: slot_eq al)
  have raw: "rawGetBlock ?r' ?bid = Returns None"
    using rawGetBlock_entry[of ?r' ?bid] s by (simp add: bk al)
  have g: "GetBlock ?r' ?bid = Returns None"
    using GetBlock_eq[of ?r' ?bid] c by (simp add: al raw)
  have bl: "Id b \<noteq> ?bid" if "Blocks ?r' = Returns bs" "b \<in> set bs" for bs b
    using Blocks_sound[OF that] g by auto
  have fr: "fst (Free ?r' b) = Returns True
          \<and> nextId (snd (Free ?r' b)) = nextId r
          \<and> getFreePointer (snd (Free ?r' b)) = getFreePointer r
          \<and> entry (snd (Free ?r' b)) (nextId r) = (0, 0)"
    if "nextId r < 65535" "Id b = ?bid" for b
  proof -
    have p: "0 \<le> nextId ?r'" "nextId ?r' \<le> 65535" "nextId r \<le> 65535"
      "Id b = regionBase (rid ?r') + nextId r" "16 \<le> slot ?r' (nextId r)"
      "entry ?r' (nextId r) = (getFreePointer r, 0)" "(getFreePointer r, 0::int) \<noteq> (0, 0)"
      using that a c by (simp_all add: al slot_eq)
    obtain r'' where "Free ?r' b = (Returns True, r'')" "entry r'' (nextId r) = (0, 0)"
      "if nextId r = nextId ?r' - 1
       then getFreePointer r'' = getFreePointer r \<and> nextId r'' = nextId r
       else getFreePointer r'' = getFreePointer ?r' \<and> nextId r'' = nextId ?r'"
      using Free_live[OF p(1,2) c(2) p(3-7)] by (elim exE conjE) (rule that, assumption+)
    then show ?thesis by (simp add: al)
  qed
  define r' where "r' = snd (Allocate r 0)"
  have f: "Allocate r 0 = (Returns None, r')"
    using al(1) unfolding r'_def by (metis prod.collapse)
  have "Heap_Allocate (Suc n) \<lparr>regions = r # rs\<rparr> 0 = Some (Returns None, \<lparr>regions = r' # rs\<rparr>)" for n rs
    by (simp add: f)
  then have h: "Heap_Allocate (Suc n) \<lparr>regions = r # rs\<rparr> 0
      = Some (Returns None, \<lparr>regions = ?r' # rs\<rparr>)" for n rs
    unfolding r'_def .
  have P5: "\<forall>bs. Blocks ?r' = Returns bs \<longrightarrow> (\<forall>b \<in> set bs. Id b \<noteq> ?bid)"
    using bl by blast
  have P6: "\<forall>s b bs. entry s (nextId r) = entry ?r' (nextId r)
              \<longrightarrow> GetBlock s ?bid \<noteq> Returns (Some b)
                \<and> (Blocks s = Returns bs \<longrightarrow> (\<forall>x \<in> set bs. Id x \<noteq> ?bid))"
    using zs zb by blast
  have P7: "\<forall>b. nextId r < 65535 \<and> Id b = ?bid
              \<longrightarrow> fst (Free ?r' b) = Returns True
                \<and> nextId (snd (Free ?r' b)) = nextId r
                \<and> getFreePointer (snd (Free ?r' b)) = getFreePointer r
                \<and> entry (snd (Free ?r' b)) (nextId r) = (0, 0)"
    using fr by blast
  have P8: "\<forall>n rs. Heap_Allocate (Suc n) \<lparr>regions = r # rs\<rparr> 0
              = Some (Returns None, \<lparr>regions = ?r' # rs\<rparr>)"
    using h by blast
  show ?thesis
    using al(1,6,5) g P5 P6 P7 P8 by (intro conjI) assumption+
qed

theorem Allocate_zero_witness:
  "region_ok (new_region 0 1048576)
   \<and> Available (new_region 0 1048576) = Returns 1048536
   \<and> fst (Allocate (new_region 0 1048576) 0) = Returns None
   \<and> entry (snd (Allocate (new_region 0 1048576) 0)) 0 = (32, 0)
   \<and> nextId (snd (Allocate (new_region 0 1048576) 0)) = 1
   \<and> GetBlock (snd (Allocate (new_region 0 1048576) 0)) 0 = Returns None
   \<and> fst (Free (snd (Allocate (new_region 0 1048576) 0))
             \<lparr>Id = 0, Bytes = (0, 0), Size = 0, Offset = 0\<rparr>) = Returns True
   \<and> nextId (snd (Free (snd (Allocate (new_region 0 1048576) 0))
             \<lparr>Id = 0, Bytes = (0, 0), Size = 0, Offset = 0\<rparr>)) = 0
   \<and> Heap_Allocate 1 \<lparr>regions = [new_region 0 1048576]\<rparr> 0
        = Some (Returns None, \<lparr>regions = [snd (Allocate (new_region 0 1048576) 0)]\<rparr>)"
proof -
  have ok: "region_ok (new_region 0 1048576)"
    by (simp add: new_region_ok is_i64_def)
  have a: "Available (new_region 0 1048576) = Returns 1048536"
    using new_region_Available[of 1048576 0] by (simp add: is_i64_def)
  note t = Allocate_zero[OF ok a, simplified new_region_nextId new_region_fp new_region_fields regionBase_0]
  have f: "fst (Free (snd (Allocate (new_region 0 1048576) 0))
             \<lparr>Id = 0, Bytes = (0, 0), Size = 0, Offset = 0\<rparr>) = Returns True
   \<and> nextId (snd (Free (snd (Allocate (new_region 0 1048576) 0))
             \<lparr>Id = 0, Bytes = (0, 0), Size = 0, Offset = 0\<rparr>)) = 0"
    using t by simp
  show ?thesis
    using t f ok a by simp
qed

text \<open>
  The claim fails in \<open>region_after_65536\<close>, where \<open>Available\<close> returns 2031576 and the
  stored counter is 65536: \<open>Allocate 0\<close> overwrites the entry of block index 0, which
  held the first block \<open>(32, 1)\<close>, and sets the counter to 1. It fails in a new region of
  1 MiB: after \<open>Allocate 0\<close>, \<open>Free\<close> on the id 0 returns true, the next allocation of 100
  bytes returns the block of id 0, and \<open>GetBlock\<close> returns it.
\<close>

theorem Allocate_zero_wraps_and_reappears:
  "Fails OutOfMemory \<notin> set (fst (Allocate_seq (new_region 0 2097152) (replicate 65536 1)))
   \<and> region_after_65536 = snd (Allocate_seq (new_region 0 2097152) (replicate 65536 1))
   \<and> Available region_after_65536 = Returns 2031576
   \<and> nextId region_after_65536 = 65536
   \<and> entry region_after_65536 0 = (32, 1)
   \<and> fst (Allocate region_after_65536 0) = Returns None
   \<and> nextId (snd (Allocate region_after_65536 0)) = 1
   \<and> entry (snd (Allocate region_after_65536 0)) 0 = (65568, 0)
   \<and> fst (Allocate (new_region 0 1048576) 0) = Returns None
   \<and> fst (Free (snd (Allocate (new_region 0 1048576) 0))
             \<lparr>Id = 0, Bytes = (0, 0), Size = 0, Offset = 0\<rparr>) = Returns True
   \<and> fst (Allocate (snd (Free (snd (Allocate (new_region 0 1048576) 0))
                              \<lparr>Id = 0, Bytes = (0, 0), Size = 0, Offset = 0\<rparr>)) 100)
       = Returns (Some \<lparr>Id = 0, Bytes = (32, 132), Size = 100, Offset = 32\<rparr>)
   \<and> GetBlock (snd (Allocate (snd (Free (snd (Allocate (new_region 0 1048576) 0))
                                       \<lparr>Id = 0, Bytes = (0, 0), Size = 0, Offset = 0\<rparr>)) 100)) 0
       = Returns (Some \<lparr>Id = 0, Bytes = (32, 132), Size = 100, Offset = 32\<rparr>)"
proof -
  let ?q = region_after_65536
  let ?n = "new_region 0 1048576"
  let ?b = "\<lparr>Id = 0, Bytes = (0, 0), Size = 0, Offset = 0\<rparr>"
  let ?p = "snd (Allocate ?n 0)"
  let ?f = "snd (Free ?p ?b)"
  let ?blk = "\<lparr>Id = 0, Bytes = (32, 132), Size = 100, Offset = 32\<rparr>"
  have av: "Available ?q = Returns 2031576"
    using Available_eq[of ?q] by (simp add: region_after_65536 i64_def)
  obtain r3 where w: "Allocate ?q 0 = (Returns None, r3)" "nextId r3 = 1" "entry r3 0 = (65568, 0)"
    using region_after_65536_steps[of 0] by auto
  have ok: "region_ok ?n" by (simp add: new_region_ok is_i64_def)
  note al = Allocate_ok_snd[OF ok, of 0, simplified new_region_nextId new_region_fp new_region_fields
      regionBase_0, simplified]
  have p: "0 \<le> nextId ?p" "nextId ?p \<le> 65535" "(0::int) \<le> 0" "(0::int) \<le> 65535"
    "Id ?b = regionBase (rid ?p) + 0" "16 \<le> slot ?p 0" "entry ?p 0 = (32, 0)"
    "(32::int, 0::int) \<noteq> (0, 0)"
    by (simp_all add: al slot_eq)
  obtain r'' where fr: "Free ?p ?b = (Returns True, r'')" "rid r'' = rid ?p" "dlen r'' = dlen ?p"
    "if 0 = nextId ?p - 1 then getFreePointer r'' = 32 \<and> nextId r'' = 0
     else getFreePointer r'' = getFreePointer ?p \<and> nextId r'' = nextId ?p"
    using Free_live[OF p] by (elim exE conjE) (rule that, assumption+)
  have f: "rid ?f = 0" "dlen ?f = 1048576" "getFreePointer ?f = 32" "nextId ?f = 0"
    using fr by (simp_all add: al)
  have okf: "region_ok ?f" by (simp add: region_ok_def f is_i64_def)
  note al2 = Allocate_ok_snd(1)[OF okf, of 100, simplified f regionBase_0, simplified]
  have i: "is_i64 100" by (simp add: is_i64_def)
  have "nextId ?f < 65535 \<longrightarrow>
          GetBlock (snd (Allocate ?f 100)) (regionBase (rid ?f) + nextId ?f) = Returns (Some ?blk)"
    using Allocate_write_order[OF okf i al2] by (elim exE conjE) simp
  then have g: "GetBlock (snd (Allocate ?f 100)) 0 = Returns (Some ?blk)"
    by (simp add: f)
  have o: "Fails OutOfMemory \<notin> set (fst (Allocate_seq (new_region 0 2097152) (replicate 65536 1)))"
    by (rule Allocate_seq_65536)
  show ?thesis
    using o av w al(1) fr(1) al2 g
    by (simp add: region_after_65536 region_after_65536_def[symmetric])
qed

subsection \<open>Growing the heap\<close>













end
